theory Spec2Isabelle
  imports Complex_Main
begin

section \<open>Exceptions\<close>

text \<open>
  The exception classes the program names: the seven classes of \<open>COMMON_EXCEPTIONS\<close>
  (from \<open>selenium.common.exceptions\<close>), any further class of that module (all of them
  derive from \<open>WebDriverException\<close>), and the built-in classes the program raises or
  can meet. An exception value carries its class and its message.
\<close>

datatype exn_class =
    NoSuchElementException
  | TimeoutException
  | StaleElementReferenceException
  | ElementClickInterceptedException
  | WebDriverException
  | ElementNotInteractableException
  | NoSuchAttributeException
  | OtherWebDriverException string
  | Exception
  | ValueError
  | FileNotFoundError
  | AttributeError
  | TypeError

datatype py_exn = Exn (exn_cls: exn_class) (exn_msg: string)

fun is_selenium :: "exn_class \<Rightarrow> bool" where
  "is_selenium Exception = False"
| "is_selenium ValueError = False"
| "is_selenium FileNotFoundError = False"
| "is_selenium AttributeError = False"
| "is_selenium TypeError = False"
| "is_selenium c = True"

text \<open>\<open>issubclass c d\<close>: every class derives from \<open>Exception\<close>, every selenium class
  from \<open>WebDriverException\<close>.\<close>

definition issubclass :: "exn_class \<Rightarrow> exn_class \<Rightarrow> bool" where
  "issubclass c d = (c = d \<or> d = Exception \<or> (d = WebDriverException \<and> is_selenium c))"

definition COMMON_EXCEPTIONS :: "exn_class list" where
  "COMMON_EXCEPTIONS =
     [NoSuchElementException, TimeoutException,
      StaleElementReferenceException, ElementClickInterceptedException,
      WebDriverException, ElementNotInteractableException,
      NoSuchAttributeException]"

text \<open>\<open>except (K1, ..., Kn)\<close> catches an exception that is an instance of one of the
  classes.\<close>

definition catches :: "exn_class list \<Rightarrow> py_exn \<Rightarrow> bool" where
  "catches ks e = list_ex (issubclass (exn_cls e)) ks"

text \<open>\<open>str(e)\<close>: the message for a built-in exception built from one argument; selenium's
  \<open>WebDriverException.__str__\<close> wraps the message (no screenshot, no stack trace).\<close>

definition str_exn :: "py_exn \<Rightarrow> string" where
  "str_exn e =
     (if is_selenium (exn_cls e) then ''Message: '' @ exn_msg e @ [CHR 0x0A]
      else exn_msg e)"

section \<open>Effects\<close>

text \<open>
  The program acts on a remote browser and on the operating system. Their state is the
  world \<open>'w\<close>, which the program only reaches through calls; every call the program issues
  is recorded, in order, in a trace of events. A computation takes the world and the
  trace and returns either an exception or a value, with the new world and trace; it
  returns \<open>None\<close> when it does not return at all.
\<close>

type_synonym element = nat

datatype wait_condition =
    presence_of_element_located
  | presence_of_all_elements_located
  | element_to_be_clickable

datatype event =
    Called string
  | Sleep real
  | Stdout string
  | DriverGet string
  | FindElements string
  | WaitUntil wait_condition string
  | ExecuteScript string element
  | ElementClick element
  | ElementClear element
  | SendKeys element string
  | GetProperty element string
  | SBEnter bool string
  | MaximizeWindow
  | SetPageLoadTimeout nat
  | DriverQuit
  | SBExit
  | Popen string

type_synonym 'w st = "'w \<times> event list"

type_synonym ('w, 'a) prog = "'w st \<Rightarrow> ((py_exn + 'a) \<times> 'w st) option"

definition returns :: "'a \<Rightarrow> ('w, 'a) prog" where
  "returns a st = Some (Inr a, st)"

definition raise :: "py_exn \<Rightarrow> ('w, 'a) prog" where
  "raise e st = Some (Inl e, st)"

definition bind :: "('w, 'a) prog \<Rightarrow> ('a \<Rightarrow> ('w, 'b) prog) \<Rightarrow> ('w, 'b) prog" where
  "bind m f st =
     (case m st of
        None \<Rightarrow> None
      | Some (Inl e, st1) \<Rightarrow> Some (Inl e, st1)
      | Some (Inr a, st1) \<Rightarrow> f a st1)"

definition seq :: "('w, 'a) prog \<Rightarrow> ('w, 'b) prog \<Rightarrow> ('w, 'b) prog" where
  "seq m k = bind m (\<lambda>_. k)"

text \<open>\<open>try: m except ks as e: h e\<close>.\<close>

definition try_except ::
  "('w, 'a) prog \<Rightarrow> exn_class list \<Rightarrow> (py_exn \<Rightarrow> ('w, 'a) prog) \<Rightarrow> ('w, 'a) prog" where
  "try_except m ks h st =
     (case m st of
        None \<Rightarrow> None
      | Some (Inl e, st1) \<Rightarrow> if catches ks e then h e st1 else Some (Inl e, st1)
      | Some (Inr a, st1) \<Rightarrow> Some (Inr a, st1))"

text \<open>A call into the world: the event is recorded when the call is issued, whatever
  the call answers.\<close>

definition call :: "event \<Rightarrow> ('w \<Rightarrow> (py_exn + 'a) \<times> 'w) \<Rightarrow> ('w, 'a) prog" where
  "call ev f st = (case f (fst st) of (r, w1) \<Rightarrow> Some (r, (w1, snd st @ [ev])))"

text \<open>\<open>time.sleep(d)\<close> raises \<open>ValueError\<close> on a negative length.\<close>

definition py_sleep :: "real \<Rightarrow> ('w, unit) prog" where
  "py_sleep d st =
     (if d < 0 then raise (Exn ValueError ''sleep length must be non-negative'') st
      else Some (Inr (), (fst st, snd st @ [Sleep d])))"

text \<open>\<open>print(s, end="\r")\<close>.\<close>

definition py_print_cr :: "string \<Rightarrow> ('w, unit) prog" where
  "py_print_cr s st = Some (Inr (), (fst st, snd st @ [Stdout (s @ [CHR 0x0D])]))"

text \<open>\<open>kwargs.get(key, default)\<close>, a keyword argument being \<open>None\<close> when the caller does
  not pass it.\<close>

definition kwargs_get :: "'a option \<Rightarrow> 'a \<Rightarrow> 'a" where
  "kwargs_get v d = (case v of None \<Rightarrow> d | Some x \<Rightarrow> x)"

section \<open>exceptional_handler\<close>

text \<open>
  The wrapper that \<open>exceptional_handler(func)\<close> returns, with its two keyword arguments
  read: \<open>func\<close> stands for \<open>func(*args, **kwargs)\<close> with \<open>retry\<close> and \<open>max_retries\<close> popped.
\<close>

function wrapper :: "('w, 'a) prog \<Rightarrow> int \<Rightarrow> int \<Rightarrow> ('w, 'a) prog" where
  "wrapper func retry max_retries st =
     (if retry \<ge> max_retries then raise (Exn Exception ''Maximum retries reached!'') st
      else
        (case func st of
           None \<Rightarrow> None
         | Some (Inr a, st1) \<Rightarrow> Some (Inr a, st1)
         | Some (Inl e, st1) \<Rightarrow>
             if catches COMMON_EXCEPTIONS e then
               (case py_sleep 5 st1 of
                  None \<Rightarrow> None
                | Some (Inl e2, st2) \<Rightarrow> Some (Inl e2, st2)
                | Some (Inr u, st2) \<Rightarrow> wrapper func (retry + 1) max_retries st2)
             else Some (Inl e, st1)))"
  by pat_completeness auto
termination
  by (relation "measure (\<lambda>(func, retry, max_retries, st). nat (max_retries - retry))") auto

declare wrapper.simps [simp del]

definition exceptional_handler ::
  "('w, 'a) prog \<Rightarrow> int option \<Rightarrow> int option \<Rightarrow> ('w, 'a) prog" where
  "exceptional_handler func retry max_retries =
     wrapper func (kwargs_get retry 0) (kwargs_get max_retries 2)"

section \<open>wait_until\<close>

record 'w wait_kwargs =
  before_loop :: "('w, unit) prog option"
  max_tries :: "int option"
  in_loop_before :: "('w, unit) prog option"
  message :: "string option"
  in_loop_after :: "('w, unit) prog option"
  sleep :: "real option"
  after_loop :: "('w, unit) prog option"

text \<open>The statements of the loop body after \<open>attempt += 1\<close>.\<close>

definition loop_tail :: "'w wait_kwargs \<Rightarrow> nat \<Rightarrow> ('w, unit) prog" where
  "loop_tail kwargs dots =
     seq (py_print_cr (kwargs_get (message kwargs) ''Waiting'' @ replicate dots CHR ''.''))
    (seq (kwargs_get (in_loop_after kwargs) (returns ()))
    (seq (py_sleep (kwargs_get (sleep kwargs) (1 / 2)))
         (py_print_cr (replicate 100 CHR '' ''))))"

text \<open>The \<open>while True\<close> loop; its value is \<open>not_completed\<close>.\<close>

partial_function (option) wait_loop ::
  "('w, bool) prog \<Rightarrow> 'w wait_kwargs \<Rightarrow> int \<Rightarrow> int \<Rightarrow> nat \<Rightarrow> 'w st
     \<Rightarrow> ((py_exn + bool) \<times> 'w st) option" where
  "wait_loop condition_func kwargs max_attempts attempt dots st =
     (case kwargs_get (in_loop_before kwargs) (returns ()) st of
        None \<Rightarrow> None
      | Some (Inl e, st1) \<Rightarrow> Some (Inl e, st1)
      | Some (Inr u, st1) \<Rightarrow>
          (case condition_func st1 of
             None \<Rightarrow> None
           | Some (Inl e, st2) \<Rightarrow> Some (Inl e, st2)
           | Some (Inr c, st2) \<Rightarrow>
               if c then Some (Inr False, st2)
               else if max_attempts \<noteq> - 1 \<and> attempt \<ge> max_attempts
                 then Some (Inr True, st2)
               else
                 (case loop_tail kwargs dots st2 of
                    None \<Rightarrow> None
                  | Some (Inl e, st3) \<Rightarrow> Some (Inl e, st3)
                  | Some (Inr u, st3) \<Rightarrow>
                      wait_loop condition_func kwargs max_attempts (attempt + 1)
                        (if dots > 2 then 1 else dots + 1) st3)))"

definition wait_until :: "('w, bool) prog \<Rightarrow> 'w wait_kwargs \<Rightarrow> ('w, bool) prog" where
  "wait_until condition_func kwargs =
     seq (kwargs_get (before_loop kwargs) (returns ()))
       (bind (wait_loop condition_func kwargs (kwargs_get (max_tries kwargs) (- 1)) 0 1)
          (\<lambda>not_completed.
             seq (kwargs_get (after_loop kwargs) (returns ()))
                 (returns (\<not> not_completed))))"

section \<open>The environment\<close>

text \<open>
  The browser driver (selenium, seleniumbase) and the operating system are outside the
  program: each of their operations is a function of the world that answers with a value
  or an exception. \<open>wait_located c sel\<close> stands for
  \<open>WebDriverWait(driver, 40).until(c((By.CSS_SELECTOR, sel)))\<close> with a condition that
  yields one element, \<open>wait_all_located sel\<close> for the same with
  \<open>presence_of_all_elements_located\<close>. Two functions of the standard library are
  operations of the environment as well: \<open>os.path.splitext\<close>, which depends on the
  platform, and \<open>str.lower\<close>, which lower-cases every cased character of Unicode, while
  a string is here a list of bytes.
\<close>

record 'w env =
  driver_get :: "string \<Rightarrow> 'w \<Rightarrow> (py_exn + unit) \<times> 'w"
  driver_find_elements :: "string \<Rightarrow> 'w \<Rightarrow> (py_exn + element list) \<times> 'w"
  wait_located :: "wait_condition \<Rightarrow> string \<Rightarrow> 'w \<Rightarrow> (py_exn + element) \<times> 'w"
  wait_all_located :: "string \<Rightarrow> 'w \<Rightarrow> (py_exn + element list) \<times> 'w"
  execute_script :: "string \<Rightarrow> element \<Rightarrow> 'w \<Rightarrow> (py_exn + unit) \<times> 'w"
  element_click :: "element \<Rightarrow> 'w \<Rightarrow> (py_exn + unit) \<times> 'w"
  element_clear :: "element \<Rightarrow> 'w \<Rightarrow> (py_exn + unit) \<times> 'w"
  element_send_keys :: "element \<Rightarrow> string \<Rightarrow> 'w \<Rightarrow> (py_exn + unit) \<times> 'w"
  element_get_property :: "element \<Rightarrow> string \<Rightarrow> 'w \<Rightarrow> (py_exn + string) \<times> 'w"
  sb_enter :: "bool \<Rightarrow> string \<Rightarrow> 'w \<Rightarrow> (py_exn + nat) \<times> 'w"
  maximize_window :: "'w \<Rightarrow> (py_exn + unit) \<times> 'w"
  set_page_load_timeout :: "nat \<Rightarrow> 'w \<Rightarrow> (py_exn + unit) \<times> 'w"
  driver_quit :: "'w \<Rightarrow> (py_exn + unit) \<times> 'w"
  sb_exit :: "'w \<Rightarrow> (py_exn + unit) \<times> 'w"
  popen :: "string \<Rightarrow> 'w \<Rightarrow> (py_exn + unit) \<times> 'w"
  path_exists :: "string \<Rightarrow> 'w \<Rightarrow> bool"
  path_splitext :: "string \<Rightarrow> string \<times> string"
  str_lower :: "string \<Rightarrow> string"

text \<open>\<open>Keys.ENTER\<close> is the code point U+E007, here in UTF-8.\<close>

definition Keys_ENTER :: string where
  "Keys_ENTER = [CHR 0xEE, CHR 0x80, CHR 0x87]"

text \<open>What \<open>str.lower()\<close> yields on a string of ASCII characters: one instance of
  \<open>str_lower\<close>, for the concrete inputs, which are such strings.\<close>

definition ascii_lower_char :: "char \<Rightarrow> char" where
  "ascii_lower_char c =
     (if (65::nat) \<le> of_char c \<and> of_char c \<le> (90::nat)
      then char_of (of_char c + (32::nat)) else c)"

definition ascii_lower :: "string \<Rightarrow> string" where
  "ascii_lower s = map ascii_lower_char s"

text \<open>
  \<open>posixpath.splitext\<close>, as \<open>genericpath._splitext(p, '/', None, '.')\<close> computes it: the
  extension starts at the last dot of the last path component, unless only dots come
  before it there. One instance of \<open>path_splitext\<close>.
\<close>

fun rfind :: "char \<Rightarrow> string \<Rightarrow> int" where
  "rfind c [] = - 1"
| "rfind c (x # xs) = (let r = rfind c xs in if r \<ge> 0 then r + 1 else if x = c then 0 else - 1)"

definition posix_splitext :: "string \<Rightarrow> string \<times> string" where
  "posix_splitext p =
     (let sepIndex = rfind CHR ''/'' p; dotIndex = rfind CHR ''.'' p in
      if dotIndex > sepIndex \<and>
         list_ex (\<lambda>ch. ch \<noteq> CHR ''.'')
           (take (nat (dotIndex - (sepIndex + 1))) (drop (nat (sepIndex + 1)) p))
      then (take (nat dotIndex) p, drop (nat dotIndex) p)
      else (p, []))"

section \<open>BrowserHandler\<close>

text \<open>
  The fields of a \<open>BrowserHandler\<close>. \<open>driver\<close> and \<open>seleniumbase_driver\<close> hold the handle
  that seleniumbase returns, \<open>wait\<close> the timeout of the \<open>WebDriverWait\<close>, \<open>sb_init\<close> the
  arguments of the \<open>SB\<close> context manager; each is \<open>None\<close> until \<open>start_chrome\<close>.
\<close>

record browser_handler =
  platform :: string
  temp_profile :: string
  driver :: "nat option"
  wait :: "nat option"
  seleniumbase_driver :: "nat option"
  sb_init :: "(bool \<times> string) option"

text \<open>\<open>BrowserHandler.__init__\<close>, given \<open>platform.system().upper()\<close> and the profile
  directory (the argument, or the entry of \<open>TEMP_PROFILES\<close> for the platform).\<close>

definition BrowserHandler_init :: "string \<Rightarrow> string \<Rightarrow> browser_handler" where
  "BrowserHandler_init plat profile =
     \<lparr>platform = plat, temp_profile = profile, driver = None, wait = None,
      seleniumbase_driver = None, sb_init = None\<rparr>"

text \<open>An attribute of \<open>None\<close>: \<open>self.driver.get\<close> with \<open>self.driver\<close> still \<open>None\<close> raises
  \<open>AttributeError\<close>.\<close>

definition quoted :: "string \<Rightarrow> string" where
  "quoted s = [CHR 0x27] @ s @ [CHR 0x27]"

definition attr_of :: "'b option \<Rightarrow> string \<Rightarrow> ('w, 'a) prog \<Rightarrow> ('w, 'a) prog" where
  "attr_of obj name m =
     (case obj of
        None \<Rightarrow> raise (Exn AttributeError
                  (quoted ''NoneType'' @ '' object has no attribute '' @ quoted name))
      | Some _ \<Rightarrow> m)"

datatype located = Single element | Multiple "element list"

definition get_element ::
  "'w env \<Rightarrow> ('z) browser_handler_scheme \<Rightarrow> string \<Rightarrow> bool \<Rightarrow> bool \<Rightarrow> ('w, located) prog" where
  "get_element E self css_selector by_clickable multiple =
     attr_of (wait self) ''until''
       (if by_clickable then
          bind (call (WaitUntil element_to_be_clickable css_selector)
                  (wait_located E element_to_be_clickable css_selector))
            (\<lambda>el. returns (Single el))
        else if \<not> multiple then
          bind (call (WaitUntil presence_of_element_located css_selector)
                  (wait_located E presence_of_element_located css_selector))
            (\<lambda>el. returns (Single el))
        else
          bind (call (WaitUntil presence_of_all_elements_located css_selector)
                  (wait_all_located E css_selector))
            (\<lambda>els. returns (Multiple els)))"

definition find_elements ::
  "'w env \<Rightarrow> ('z) browser_handler_scheme \<Rightarrow> string \<Rightarrow> ('w, element list) prog" where
  "find_elements E self css_selector =
     attr_of (driver self) ''find_elements''
       (call (FindElements css_selector) (driver_find_elements E css_selector))"

text \<open>The body of \<open>write\<close>, and \<open>write\<close> as decorated (\<open>write_input\<close>: \<open>write\<close> is a keyword
  of Isabelle) (no caller passes \<open>retry\<close> or
  \<open>max_retries\<close>). \<open>get_element\<close> is called with \<open>multiple=False\<close>, so it yields one
  element.\<close>

definition write_body ::
  "'w env \<Rightarrow> ('z) browser_handler_scheme \<Rightarrow> string \<Rightarrow> string \<Rightarrow> bool \<Rightarrow> bool \<Rightarrow> bool
     \<Rightarrow> ('w, unit) prog" where
  "write_body E self css_selector data enter clickable clear =
     bind (get_element E self css_selector clickable False)
       (\<lambda>loc. case loc of
          Multiple els \<Rightarrow>
            raise (Exn AttributeError
              (quoted ''list'' @ '' object has no attribute '' @ quoted ''send_keys''))
        | Single input_el \<Rightarrow>
            seq (if clear then call (ElementClear input_el) (element_clear E input_el)
                 else returns ())
           (seq (call (SendKeys input_el data) (element_send_keys E input_el data))
                (if enter
                 then call (SendKeys input_el Keys_ENTER) (element_send_keys E input_el Keys_ENTER)
                 else returns ())))"

definition write_input ::
  "'w env \<Rightarrow> ('z) browser_handler_scheme \<Rightarrow> string \<Rightarrow> string \<Rightarrow> bool \<Rightarrow> bool \<Rightarrow> bool
     \<Rightarrow> ('w, unit) prog" where
  "write_input E self css_selector data enter clickable clear =
     exceptional_handler (write_body E self css_selector data enter clickable clear) None None"

text \<open>The callers of \<open>click_element\<close> and \<open>get_text\<close> pass either \<open>css_selector\<close> or
  \<open>element\<close>.\<close>

datatype target = BySelector string | ByElement element

definition scroll_script :: string where
  "scroll_script = ''arguments[0].scrollIntoView({block: 'center'})''"

definition click_element_body ::
  "'w env \<Rightarrow> ('z) browser_handler_scheme \<Rightarrow> target \<Rightarrow> ('w, unit) prog" where
  "click_element_body E self tgt =
     bind (case tgt of
             BySelector css_selector \<Rightarrow>
               bind (get_element E self css_selector True False)
                 (\<lambda>loc. case loc of
                    Single el \<Rightarrow> returns el
                  | Multiple els \<Rightarrow>
                      raise (Exn AttributeError
                        (quoted ''list'' @ '' object has no attribute '' @ quoted ''click'')))
           | ByElement el \<Rightarrow> returns el)
       (\<lambda>el.
          seq (attr_of (driver self) ''execute_script''
                 (call (ExecuteScript scroll_script el) (execute_script E scroll_script el)))
         (seq (py_sleep 1)
              (call (ElementClick el) (element_click E el))))"

definition click_element ::
  "'w env \<Rightarrow> ('z) browser_handler_scheme \<Rightarrow> target \<Rightarrow> ('w, unit) prog" where
  "click_element E self tgt = exceptional_handler (click_element_body E self tgt) None None"

text \<open>\<open>get_text\<close> yields one text, or the list of the texts when \<open>multiple\<close>.\<close>

datatype text_value = Text string | Texts "string list"

fun get_properties :: "'w env \<Rightarrow> string \<Rightarrow> element list \<Rightarrow> ('w, string list) prog" where
  "get_properties E name [] = returns []"
| "get_properties E name (el # els) =
     bind (call (GetProperty el name) (element_get_property E el name))
       (\<lambda>t. bind (get_properties E name els) (\<lambda>ts. returns (t # ts)))"

definition get_text_body ::
  "'w env \<Rightarrow> ('z) browser_handler_scheme \<Rightarrow> target \<Rightarrow> bool \<Rightarrow> ('w, text_value) prog" where
  "get_text_body E self tgt multiple =
     bind (case tgt of
             BySelector css_selector \<Rightarrow> get_element E self css_selector False multiple
           | ByElement el \<Rightarrow> returns (Single el))
       (\<lambda>loc.
          if \<not> multiple then
            (case loc of
               Single el \<Rightarrow>
                 bind (call (GetProperty el ''innerText'') (element_get_property E el ''innerText''))
                   (\<lambda>t. returns (Text t))
             | Multiple els \<Rightarrow>
                 raise (Exn AttributeError
                   (quoted ''list'' @ '' object has no attribute '' @ quoted ''get_property'')))
          else
            (case loc of
               Multiple els \<Rightarrow> bind (get_properties E ''innerText'' els) (\<lambda>ts. returns (Texts ts))
             | Single el \<Rightarrow>
                 raise (Exn TypeError (quoted ''WebElement'' @ '' object is not iterable''))))"

definition get_text ::
  "'w env \<Rightarrow> ('z) browser_handler_scheme \<Rightarrow> target \<Rightarrow> bool \<Rightarrow> ('w, text_value) prog" where
  "get_text E self tgt multiple = exceptional_handler (get_text_body E self tgt multiple) None None"

text \<open>\<open>start_chrome\<close> yields the handler with its fields set; when it raises, so does
  \<open>InstagramBot.__init__\<close>, and no object is built.\<close>

definition start_chrome ::
  "'w env \<Rightarrow> ('z) browser_handler_scheme \<Rightarrow> bool \<Rightarrow> ('w, ('z) browser_handler_scheme) prog" where
  "start_chrome E self headless =
     bind (call (SBEnter headless (temp_profile self)) (sb_enter E headless (temp_profile self)))
       (\<lambda>h.
          seq (call MaximizeWindow (maximize_window E))
         (seq (call (SetPageLoadTimeout 300) (set_page_load_timeout E 300))
              (returns (self\<lparr>seleniumbase_driver := Some h,
                              sb_init := Some (headless, temp_profile self),
                              driver := Some h,
                              wait := Some 40\<rparr>))))"

text \<open>\<open>kill_browser\<close> reads the handler and leaves its fields as they are.\<close>

definition kill_browser ::
  "'w env \<Rightarrow> ('z) browser_handler_scheme \<Rightarrow> bool \<Rightarrow> ('w, unit) prog" where
  "kill_browser E self delete_profile =
     (if driver self = None then returns ()
      else
        seq (call DriverQuit (driver_quit E))
       (seq (attr_of (sb_init self) ''__exit__'' (call SBExit (sb_exit E)))
       (seq (py_sleep 5)
            (if \<not> delete_profile then returns ()
             else if platform self \<in> set [''LINUX'', ''DARWIN'']
               then call (Popen (''rm -r '' @ temp_profile self))
                      (popen E (''rm -r '' @ temp_profile self))
             else if platform self = ''WINDOWS''
               then call (Popen (''rmdir /S /Q '' @ temp_profile self))
                      (popen E (''rmdir /S /Q '' @ temp_profile self))
             else returns ()))))"

section \<open>InstagramBot\<close>

record instagram_bot = browser_handler +
  username :: string
  password :: string

text \<open>\<open>InstagramBot.__init__\<close>: the fields, then \<open>start_chrome\<close>.\<close>

definition InstagramBot_init ::
  "'w env \<Rightarrow> string \<Rightarrow> string \<Rightarrow> string \<Rightarrow> string \<Rightarrow> bool \<Rightarrow> ('w, instagram_bot) prog" where
  "InstagramBot_init E plat profile user pass headless =
     start_chrome E
       (browser_handler.extend (BrowserHandler_init plat profile)
          (instagram_bot.fields user pass))
       headless"

definition no_kwargs :: "'w wait_kwargs" where
  "no_kwargs =
     \<lparr>before_loop = None, max_tries = None, in_loop_before = None, message = None,
      in_loop_after = None, sleep = None, after_loop = None\<rparr>"

text \<open>\<open>lambda: self.find_elements(sel)\<close> as a condition: a non-empty list is true.\<close>

definition present :: "'w env \<Rightarrow> ('z) browser_handler_scheme \<Rightarrow> string \<Rightarrow> ('w, bool) prog" where
  "present E self css_selector =
     bind (find_elements E self css_selector) (\<lambda>els. returns (els \<noteq> []))"

text \<open>\<open>lambda: not self.find_elements(sel)\<close>.\<close>

definition absent :: "'w env \<Rightarrow> ('z) browser_handler_scheme \<Rightarrow> string \<Rightarrow> ('w, bool) prog" where
  "absent E self css_selector =
     bind (find_elements E self css_selector) (\<lambda>els. returns (els = []))"

definition login :: "'w env \<Rightarrow> instagram_bot \<Rightarrow> ('w, bool) prog" where
  "login E self =
     try_except
       (seq (attr_of (driver self) ''get''
               (call (DriverGet ''https://www.instagram.com/'')
                  (driver_get E ''https://www.instagram.com/'')))
       (seq (py_sleep 3)
       (bind (find_elements E self ''svg[aria-label=Home]'')
          (\<lambda>els.
             if els \<noteq> [] then returns True
             else
               seq (write_input E self ''[name='username']'' (username self) False True True)
              (seq (write_input E self ''[name='password']'' (password self) False True True)
              (seq (click_element E self (BySelector ''button[type=submit]''))
              (seq (py_sleep 5)
              (bind (wait_until (present E self ''svg[aria-label=Home]'')
                       (no_kwargs\<lparr>message := Some ''Waiting until login'',
                                   max_tries := Some 20\<rparr>))
                 (\<lambda>ok. if \<not> ok then raise (Exn TimeoutException ''No login confirmation'')
                        else returns True)))))))))
       [Exception]
       (\<lambda>e. raise (Exn Exception (''Login failed: '' @ str_exn e)))"

text \<open>
  \<open>post_image\<close>, in the order of its statements: the validation of the file, the upload,
  then one bounded wait and its actions for each dialog. The loop over the buttons of a dialog
  clicks the first one whose text is the label, and stops there.
\<close>

definition allowed_extensions :: "string list" where
  "allowed_extensions = [''.jpg'', ''.jpeg'', ''.png'', ''.gif'', ''.mp4'', ''.mov'']"

definition post_image_validate :: "'w env \<Rightarrow> string \<Rightarrow> ('w, unit) prog" where
  "post_image_validate E image_path st =
     (if \<not> path_exists E image_path (fst st)
      then raise (Exn FileNotFoundError (''Image file not found: '' @ image_path)) st
      else
        (let file_extension = str_lower E (snd (path_splitext E image_path)) in
         if file_extension \<notin> set allowed_extensions
         then raise (Exn ValueError (''Unsupported file type: '' @ file_extension)) st
         else returns () st))"

definition post_image_upload :: "'w env \<Rightarrow> instagram_bot \<Rightarrow> string \<Rightarrow> ('w, unit) prog" where
  "post_image_upload E self image_path =
     seq (click_element E self (BySelector ''svg[aria-label='New post']''))
    (seq (click_element E self (BySelector ''div[aria-hidden='false'] a:first-child''))
         (write_input E self ''input[type=file]'' image_path False False False))"

fun click_labelled ::
  "'w env \<Rightarrow> instagram_bot \<Rightarrow> string \<Rightarrow> element list \<Rightarrow> ('w, unit) prog" where
  "click_labelled E self label [] = returns ()"
| "click_labelled E self label (button # buttons) =
     bind (get_text E self (ByElement button) False)
       (\<lambda>t. if t = Text label then click_element E self (ByElement button)
             else click_labelled E self label buttons)"

text \<open>\<open>if not wait_until(condition_func)(message=msg, max_tries=tries): raise
  TimeoutException(failure)\<close>.\<close>

definition wait_or_raise :: "('w, bool) prog \<Rightarrow> string \<Rightarrow> int \<Rightarrow> string \<Rightarrow> ('w, unit) prog" where
  "wait_or_raise condition_func msg tries failure =
     bind (wait_until condition_func
             (no_kwargs\<lparr>message := Some msg, max_tries := Some tries\<rparr>))
       (\<lambda>ok. if \<not> ok then raise (Exn TimeoutException failure) else returns ())"

definition post_image_crop :: "'w env \<Rightarrow> instagram_bot \<Rightarrow> ('w, unit) prog" where
  "post_image_crop E self =
     seq (wait_or_raise (present E self ''div[aria-label='Crop']'')
            ''Waiting for crop dialog'' 20 ''Crop dialog not found'')
         (bind (find_elements E self ''div[aria-label='Crop'] div[role=button]'')
            (click_labelled E self ''Next''))"

definition post_image_edit :: "'w env \<Rightarrow> instagram_bot \<Rightarrow> ('w, unit) prog" where
  "post_image_edit E self =
     seq (wait_or_raise (present E self ''div[aria-label='Edit']'')
            ''Waiting for edit dialog'' 20 ''Edit dialog not found'')
         (bind (find_elements E self ''div[aria-label='Edit'] div[role=button]'')
            (click_labelled E self ''Next''))"

definition post_image_compose :: "'w env \<Rightarrow> instagram_bot \<Rightarrow> string \<Rightarrow> ('w, unit) prog" where
  "post_image_compose E self caption =
     seq (wait_or_raise (present E self ''div[aria-label='Create new post']'')
            ''Waiting for create new post dialog'' 20 ''Create new post dialog not found'')
    (seq (write_input E self ''div[role=textbox]'' caption False True True)
         (bind (find_elements E self ''div[aria-label='Create new post'] div[role=button]'')
            (click_labelled E self ''Share'')))"

definition post_image_confirm :: "'w env \<Rightarrow> instagram_bot \<Rightarrow> ('w, unit) prog" where
  "post_image_confirm E self =
     wait_or_raise (absent E self ''div[role=dialog]'')
       ''Waiting for confirmation'' 60 ''Unexpected confirmation error''"

definition post_image :: "'w env \<Rightarrow> instagram_bot \<Rightarrow> string \<Rightarrow> string \<Rightarrow> ('w, bool) prog" where
  "post_image E self image_path caption =
     try_except
       (seq (post_image_validate E image_path)
       (seq (post_image_upload E self image_path)
       (seq (post_image_crop E self)
       (seq (post_image_edit E self)
       (seq (post_image_compose E self caption)
       (seq (post_image_confirm E self)
            (returns True)))))))
       [Exception]
       (\<lambda>e. raise (Exn Exception (''Post failed: '' @ str_exn e)))"

section \<open>Observing calls\<close>

text \<open>
  To count how often a wrapper calls the function it is given, the function is made
  observable: \<open>probe name f\<close> records the event \<open>Called name\<close> at each call, and its
  \<open>n\<close>-th call answers \<open>f n\<close> on the world (a value or an exception, and the new world).
  \<open>probed_kwargs\<close> passes four observable hooks to \<open>wait_until\<close>; \<open>normal h\<close> says
  that a hook returns at every call, \<open>sleep_ok d\<close> that the \<open>sleep\<close> argument, when given,
  is not negative.
\<close>

definition probe :: "string \<Rightarrow> (nat \<Rightarrow> 'w \<Rightarrow> (py_exn + 'a) \<times> 'w) \<Rightarrow> ('w, 'a) prog" where
  "probe name f st = call (Called name) (f (Suc (count_list (snd st) (Called name)))) st"

definition probed_kwargs ::
  "(nat \<Rightarrow> 'w \<Rightarrow> (py_exn + unit) \<times> 'w) \<Rightarrow> (nat \<Rightarrow> 'w \<Rightarrow> (py_exn + unit) \<times> 'w) \<Rightarrow>
   (nat \<Rightarrow> 'w \<Rightarrow> (py_exn + unit) \<times> 'w) \<Rightarrow> (nat \<Rightarrow> 'w \<Rightarrow> (py_exn + unit) \<times> 'w) \<Rightarrow>
   int option \<Rightarrow> string option \<Rightarrow> real option \<Rightarrow> 'w wait_kwargs" where
  "probed_kwargs hb hi ha hf m msg d =
     \<lparr>before_loop = Some (probe ''before_loop'' hb), max_tries = m,
      in_loop_before = Some (probe ''in_loop_before'' hi), message = msg,
      in_loop_after = Some (probe ''in_loop_after'' ha), sleep = d,
      after_loop = Some (probe ''after_loop'' hf)\<rparr>"

definition normal :: "(nat \<Rightarrow> 'w \<Rightarrow> (py_exn + unit) \<times> 'w) \<Rightarrow> bool" where
  "normal h = (\<forall>n w. fst (h n w) = Inr ())"

definition sleep_ok :: "real option \<Rightarrow> bool" where
  "sleep_ok d = (case d of None \<Rightarrow> True | Some x \<Rightarrow> 0 \<le> x)"

text \<open>Of a run: what it returned or raised, and how many calls of a name it recorded;
  both are \<open>None\<close> for a run that does not return.\<close>

definition outcome :: "((py_exn + 'a) \<times> 'w st) option \<Rightarrow> (py_exn + 'a) option" where
  "outcome r = map_option fst r"

definition calls_of :: "string \<Rightarrow> ((py_exn + 'a) \<times> 'w st) option \<Rightarrow> nat option" where
  "calls_of name r = map_option (\<lambda>x. count_list (snd (snd x)) (Called name)) r"

definition trace_of :: "((py_exn + 'a) \<times> 'w st) option \<Rightarrow> event list option" where
  "trace_of r = map_option (\<lambda>x. snd (snd x)) r"

text \<open>
  The events of a wait whose condition \<open>self.find_elements(sel)\<close> stays empty until the
  budget \<open>n\<close> is used up: \<open>n\<close> rounds of a look-up, the progress line (one to three dots
  in turn), the default sleep and the blank line, then the last look-up.
\<close>

definition poll_round :: "string \<Rightarrow> string \<Rightarrow> nat \<Rightarrow> event list" where
  "poll_round css_selector msg i =
     [FindElements css_selector,
      Stdout (msg @ replicate (i mod 3 + 1) CHR ''.'' @ [CHR 0x0D]),
      Sleep (1 / 2),
      Stdout (replicate 100 CHR '' '' @ [CHR 0x0D])]"

definition poll_trace :: "string \<Rightarrow> string \<Rightarrow> nat \<Rightarrow> event list" where
  "poll_trace css_selector msg n =
     concat (map (poll_round css_selector msg) [0..<n]) @ [FindElements css_selector]"

subsection \<open>Concrete inputs\<close>

text \<open>A world with no state, a predicate that is never true, a hook that does nothing,
  an operation that always raises \<open>TimeoutException\<close>, one that raises \<open>ValueError\<close>.\<close>

definition always_false :: "nat \<Rightarrow> unit \<Rightarrow> (py_exn + bool) \<times> unit" where
  "always_false n w = (Inr False, w)"

definition true_at :: "nat \<Rightarrow> nat \<Rightarrow> unit \<Rightarrow> (py_exn + bool) \<times> unit" where
  "true_at k n w = (Inr (n = k), w)"

definition noop_hook :: "nat \<Rightarrow> unit \<Rightarrow> (py_exn + unit) \<times> unit" where
  "noop_hook n w = (Inr (), w)"

definition always_timeout :: "nat \<Rightarrow> unit \<Rightarrow> (py_exn + unit) \<times> unit" where
  "always_timeout n w = (Inl (Exn TimeoutException ''timed out''), w)"

definition always_value_error :: "nat \<Rightarrow> unit \<Rightarrow> (py_exn + unit) \<times> unit" where
  "always_value_error n w = (Inl (Exn ValueError ''bad value''), w)"

text \<open>An environment in which every driver call returns: each wait finds element 0, the
  page has the elements \<open>page\<close> for every selector, every file exists; paths are split
  as on POSIX, and lower-cased as ASCII strings.\<close>

definition quiet_env :: "element list \<Rightarrow> unit env" where
  "quiet_env page =
     \<lparr>driver_get = (\<lambda>url w. (Inr (), w)),
      driver_find_elements = (\<lambda>sel w. (Inr page, w)),
      wait_located = (\<lambda>c sel w. (Inr 0, w)),
      wait_all_located = (\<lambda>sel w. (Inr page, w)),
      execute_script = (\<lambda>script el w. (Inr (), w)),
      element_click = (\<lambda>el w. (Inr (), w)),
      element_clear = (\<lambda>el w. (Inr (), w)),
      element_send_keys = (\<lambda>el keys w. (Inr (), w)),
      element_get_property = (\<lambda>el name w. (Inr [], w)),
      sb_enter = (\<lambda>headless profile w. (Inr 1, w)),
      maximize_window = (\<lambda>w. (Inr (), w)),
      set_page_load_timeout = (\<lambda>t w. (Inr (), w)),
      driver_quit = (\<lambda>w. (Inr (), w)),
      sb_exit = (\<lambda>w. (Inr (), w)),
      popen = (\<lambda>cmd w. (Inr (), w)),
      path_exists = (\<lambda>path w. True),
      path_splitext = posix_splitext,
      str_lower = ascii_lower\<rparr>"

text \<open>The same environment with no file at any path.\<close>

definition no_files_env :: "unit env" where
  "no_files_env = (quiet_env [])\<lparr>path_exists := (\<lambda>path w. False)\<rparr>"

text \<open>The bot that \<open>InstagramBot.__init__\<close> builds in that environment on Linux.\<close>

definition started_bot :: instagram_bot where
  "started_bot =
     \<lparr>platform = ''LINUX'', temp_profile = ''/tmp/ProfileTemp'', driver = Some 1,
      wait = Some 40, seleniumbase_driver = Some 1,
      sb_init = Some (False, ''/tmp/ProfileTemp''),
      username = ''user'', password = ''secret''\<rparr>"

section \<open>Properties of the wrappers\<close>

subsection \<open>One round of the polling loop\<close>

lemma probe_apply:
  "probe name f (w, tr) =
     Some (fst (f (Suc (count_list tr (Called name))) w),
           (snd (f (Suc (count_list tr (Called name))) w), tr @ [Called name]))"
  by (simp add: probe_def call_def split: prod.splits)

lemma probe_normal:
  "normal h \<Longrightarrow> \<exists>w1. probe name h (w, tr) = Some (Inr (), (w1, tr @ [Called name]))"
  by (simp add: probe_apply normal_def)

lemma wait_loop_true:
  assumes "kwargs_get (in_loop_before kwargs) (returns ()) st = Some (Inr (), st1)"
    and "condition_func st1 = Some (Inr True, st2)"
  shows "wait_loop condition_func kwargs m attempt dots st = Some (Inr False, st2)"
  using assms by (subst wait_loop.simps) simp

lemma wait_loop_budget:
  assumes "kwargs_get (in_loop_before kwargs) (returns ()) st = Some (Inr (), st1)"
    and "condition_func st1 = Some (Inr False, st2)"
    and "m \<noteq> - 1" and "attempt \<ge> m"
  shows "wait_loop condition_func kwargs m attempt dots st = Some (Inr True, st2)"
  using assms by (subst wait_loop.simps) simp

lemma wait_loop_again:
  assumes "kwargs_get (in_loop_before kwargs) (returns ()) st = Some (Inr (), st1)"
    and "condition_func st1 = Some (Inr False, st2)"
    and "m = - 1 \<or> attempt < m"
    and "loop_tail kwargs dots st2 = Some (Inr (), st3)"
  shows "wait_loop condition_func kwargs m attempt dots st =
         wait_loop condition_func kwargs m (attempt + 1) (if dots > 2 then 1 else dots + 1) st3"
  using assms by (subst wait_loop.simps) auto

lemma wait_loop_raise:
  assumes "kwargs_get (in_loop_before kwargs) (returns ()) st = Some (Inr (), st1)"
    and "condition_func st1 = Some (Inl e, st2)"
  shows "wait_loop condition_func kwargs m attempt dots st = Some (Inl e, st2)"
  using assms by (subst wait_loop.simps) simp

lemma loop_tail_probed:
  assumes "normal ha" and "sleep_ok d"
  shows "\<exists>w1. loop_tail (probed_kwargs hb hi ha hf m msg d) dots (w, tr) =
     Some (Inr (), (w1, tr @ [Stdout (kwargs_get msg ''Waiting'' @ replicate dots CHR ''.'' @ [CHR 0x0D]),
        Called ''in_loop_after'', Sleep (kwargs_get d (1/2)), Stdout (replicate 100 CHR '' '' @ [CHR 0x0D])]))"
  using assms
  by (cases d)
     (simp_all add: loop_tail_def seq_def bind_def py_print_cr_def probed_kwargs_def kwargs_get_def
        probe_apply normal_def py_sleep_def sleep_ok_def)

lemma probed_round:
  assumes hi: "normal hi" and ha: "normal ha" and d: "sleep_ok d"
  obtains w1 w3 where
    "kwargs_get (in_loop_before (probed_kwargs hb hi ha hf mt msg d)) (returns ()) (w, tr)
       = Some (Inr (), (w1, tr @ [Called ''in_loop_before'']))"
    "probe ''condition_func'' p (w1, tr @ [Called ''in_loop_before''])
       = Some (fst (p (Suc (count_list tr (Called ''condition_func''))) w1),
               (snd (p (Suc (count_list tr (Called ''condition_func''))) w1),
                tr @ [Called ''in_loop_before'', Called ''condition_func'']))"
    "loop_tail (probed_kwargs hb hi ha hf mt msg d) dots
        (snd (p (Suc (count_list tr (Called ''condition_func''))) w1),
         tr @ [Called ''in_loop_before'', Called ''condition_func''])
       = Some (Inr (), (w3, tr @ [Called ''in_loop_before'', Called ''condition_func'',
            Stdout (kwargs_get msg ''Waiting'' @ replicate dots CHR ''.'' @ [CHR 0x0D]),
            Called ''in_loop_after'', Sleep (kwargs_get d (1/2)),
            Stdout (replicate 100 CHR '' '' @ [CHR 0x0D])]))"
proof -
  obtain w1 where b: "kwargs_get (in_loop_before (probed_kwargs hb hi ha hf mt msg d)) (returns ()) (w, tr)
       = Some (Inr (), (w1, tr @ [Called ''in_loop_before'']))"
    using probe_normal[OF hi] by (fastforce simp: probed_kwargs_def kwargs_get_def)
  have c: "probe ''condition_func'' p (w1, tr @ [Called ''in_loop_before''])
       = Some (fst (p (Suc (count_list tr (Called ''condition_func''))) w1),
               (snd (p (Suc (count_list tr (Called ''condition_func''))) w1),
                tr @ [Called ''in_loop_before'', Called ''condition_func'']))"
    by (simp add: probe_apply)
  obtain w3 where t: "loop_tail (probed_kwargs hb hi ha hf mt msg d) dots
        (snd (p (Suc (count_list tr (Called ''condition_func''))) w1),
         tr @ [Called ''in_loop_before'', Called ''condition_func''])
       = Some (Inr (), (w3, (tr @ [Called ''in_loop_before'', Called ''condition_func'']) @
           [Stdout (kwargs_get msg ''Waiting'' @ replicate dots CHR ''.'' @ [CHR 0x0D]),
            Called ''in_loop_after'', Sleep (kwargs_get d (1/2)),
            Stdout (replicate 100 CHR '' '' @ [CHR 0x0D])]))"
    using loop_tail_probed[OF ha d] by blast
  from that[OF b c] t show thesis by simp
qed

subsection \<open>The polling loop with observed hooks and predicate\<close>

text \<open>A predicate that is never true, under a budget other than \<open>- 1\<close>: the loop stops on
  the budget, after one evaluation more than the attempts left.\<close>

lemma wait_loop_never_true:
  assumes hi: "normal hi" and ha: "normal ha" and d: "sleep_ok d"
    and p: "\<forall>n w. fst (p n w) = Inr False"
    and m: "m \<noteq> - 1"
  shows "\<exists>w1 tr1. wait_loop (probe ''condition_func'' p) (probed_kwargs hb hi ha hf mt msg d) m attempt dots (w, tr)
            = Some (Inr True, (w1, tr1))
          \<and> count_list tr1 (Called ''condition_func'')
              = count_list tr (Called ''condition_func'') + nat (m - attempt) + 1
          \<and> count_list tr1 (Called ''after_loop'') = count_list tr (Called ''after_loop'')"
proof (induction "nat (m - attempt)" arbitrary: attempt dots w tr)
  case 0
  then have ge: "attempt \<ge> m" by simp
  obtain w1 where r:
    "kwargs_get (in_loop_before (probed_kwargs hb hi ha hf mt msg d)) (returns ()) (w, tr)
       = Some (Inr (), (w1, tr @ [Called ''in_loop_before'']))"
    "probe ''condition_func'' p (w1, tr @ [Called ''in_loop_before''])
       = Some (fst (p (Suc (count_list tr (Called ''condition_func''))) w1),
               (snd (p (Suc (count_list tr (Called ''condition_func''))) w1),
                tr @ [Called ''in_loop_before'', Called ''condition_func'']))"
    using probed_round[OF hi ha d, of hb hf mt msg w tr p dots] by metis
  have cc: "probe ''condition_func'' p (w1, tr @ [Called ''in_loop_before'']) = Some (Inr False, (snd (p (Suc (count_list tr (Called ''condition_func''))) w1), tr @ [Called ''in_loop_before'', Called ''condition_func'']))"
    using r(2) p by simp
  show ?case
    using wait_loop_budget[where condition_func = "probe ''condition_func'' p", OF r(1) cc m ge] 0 by simp
next
  case (Suc k)
  then have lt: "m = - 1 \<or> attempt < m" by linarith
  obtain w1 w3 where r:
    "kwargs_get (in_loop_before (probed_kwargs hb hi ha hf mt msg d)) (returns ()) (w, tr)
       = Some (Inr (), (w1, tr @ [Called ''in_loop_before'']))"
    "probe ''condition_func'' p (w1, tr @ [Called ''in_loop_before''])
       = Some (fst (p (Suc (count_list tr (Called ''condition_func''))) w1),
               (snd (p (Suc (count_list tr (Called ''condition_func''))) w1),
                tr @ [Called ''in_loop_before'', Called ''condition_func'']))"
    "loop_tail (probed_kwargs hb hi ha hf mt msg d) dots
        (snd (p (Suc (count_list tr (Called ''condition_func''))) w1),
         tr @ [Called ''in_loop_before'', Called ''condition_func''])
       = Some (Inr (), (w3, tr @ [Called ''in_loop_before'', Called ''condition_func'',
            Stdout (kwargs_get msg ''Waiting'' @ replicate dots CHR ''.'' @ [CHR 0x0D]),
            Called ''in_loop_after'', Sleep (kwargs_get d (1/2)),
            Stdout (replicate 100 CHR '' '' @ [CHR 0x0D])]))"
    using probed_round[OF hi ha d, of hb hf mt msg w tr p dots] by metis
  let ?tr3 = "tr @ [Called ''in_loop_before'', Called ''condition_func'',
            Stdout (kwargs_get msg ''Waiting'' @ replicate dots CHR ''.'' @ [CHR 0x0D]),
            Called ''in_loop_after'', Sleep (kwargs_get d (1/2)),
            Stdout (replicate 100 CHR '' '' @ [CHR 0x0D])]"
  have cc: "probe ''condition_func'' p (w1, tr @ [Called ''in_loop_before'']) = Some (Inr False, (snd (p (Suc (count_list tr (Called ''condition_func''))) w1), tr @ [Called ''in_loop_before'', Called ''condition_func'']))"
    using r(2) p by simp
  have k: "k = nat (m - (attempt + 1))" using Suc(2) by linarith
  let ?d = "if dots > 2 then 1 else dots + 1"
  obtain w4 tr4 where r4: "wait_loop (probe ''condition_func'' p) (probed_kwargs hb hi ha hf mt msg d) m (attempt + 1) ?d (w3, ?tr3)
        = Some (Inr True, (w4, tr4))"
    and c4: "count_list tr4 (Called ''condition_func'')
        = count_list ?tr3 (Called ''condition_func'') + nat (m - (attempt + 1)) + 1"
    and a4: "count_list tr4 (Called ''after_loop'') = count_list ?tr3 (Called ''after_loop'')"
    using Suc(1)[OF k, of ?d w3 ?tr3] by blast
  have n: "nat (m - attempt) = nat (m - (attempt + 1)) + 1" using Suc(2) by linarith
  have "wait_loop (probe ''condition_func'' p) (probed_kwargs hb hi ha hf mt msg d) m attempt dots (w, tr) = Some (Inr True, (w4, tr4))"
    using wait_loop_again[where condition_func = "probe ''condition_func'' p", OF r(1) cc lt r(3)] r4 by simp
  moreover have "count_list tr4 (Called ''condition_func'')
      = count_list tr (Called ''condition_func'') + nat (m - attempt) + 1"
    using c4 n by simp
  moreover have "count_list tr4 (Called ''after_loop'') = count_list tr (Called ''after_loop'')"
    using a4 by simp
  ultimately show ?case by blast
qed

text \<open>A predicate whose \<open>k\<close>-th evaluation is the first true one, the budget allowing the
  evaluations before it: the loop stops there.\<close>

lemma wait_loop_first_true:
  assumes hi: "normal hi" and ha: "normal ha" and d: "sleep_ok d"
    and j: "count_list tr (Called ''condition_func'') = j" and jk: "j < k"
    and pf: "\<forall>i w. j < i \<and> i < k \<longrightarrow> fst (p i w) = Inr False"
    and pt: "\<forall>w. fst (p k w) = Inr True"
    and m: "m = - 1 \<or> attempt + int (k - j) - 1 \<le> m"
  shows "\<exists>w1 tr1. wait_loop (probe ''condition_func'' p) (probed_kwargs hb hi ha hf mt msg d) m attempt dots (w, tr)
            = Some (Inr False, (w1, tr1))
          \<and> count_list tr1 (Called ''condition_func'') = k
          \<and> count_list tr1 (Called ''after_loop'') = count_list tr (Called ''after_loop'')"
  using j jk pf m
proof (induction "k - j - 1" arbitrary: j attempt dots w tr)
  case 0
  then have kj: "k = Suc j" by simp
  obtain w1 where r:
    "kwargs_get (in_loop_before (probed_kwargs hb hi ha hf mt msg d)) (returns ()) (w, tr)
       = Some (Inr (), (w1, tr @ [Called ''in_loop_before'']))"
    "probe ''condition_func'' p (w1, tr @ [Called ''in_loop_before''])
       = Some (fst (p (Suc (count_list tr (Called ''condition_func''))) w1),
               (snd (p (Suc (count_list tr (Called ''condition_func''))) w1),
                tr @ [Called ''in_loop_before'', Called ''condition_func'']))"
    using probed_round[OF hi ha d, of hb hf mt msg w tr p dots] by metis
  have cc: "probe ''condition_func'' p (w1, tr @ [Called ''in_loop_before''])
       = Some (Inr True, (snd (p k w1), tr @ [Called ''in_loop_before'', Called ''condition_func'']))"
    using r(2) pt 0(2) kj by simp
  show ?case
    using wait_loop_true[where condition_func = "probe ''condition_func'' p", OF r(1) cc] 0(2) kj by simp
next
  case (Suc n)
  then have lt: "Suc j < k" by simp
  obtain w1 w3 where r:
    "kwargs_get (in_loop_before (probed_kwargs hb hi ha hf mt msg d)) (returns ()) (w, tr)
       = Some (Inr (), (w1, tr @ [Called ''in_loop_before'']))"
    "probe ''condition_func'' p (w1, tr @ [Called ''in_loop_before''])
       = Some (fst (p (Suc (count_list tr (Called ''condition_func''))) w1),
               (snd (p (Suc (count_list tr (Called ''condition_func''))) w1),
                tr @ [Called ''in_loop_before'', Called ''condition_func'']))"
    "loop_tail (probed_kwargs hb hi ha hf mt msg d) dots
        (snd (p (Suc (count_list tr (Called ''condition_func''))) w1),
         tr @ [Called ''in_loop_before'', Called ''condition_func''])
       = Some (Inr (), (w3, tr @ [Called ''in_loop_before'', Called ''condition_func'',
            Stdout (kwargs_get msg ''Waiting'' @ replicate dots CHR ''.'' @ [CHR 0x0D]),
            Called ''in_loop_after'', Sleep (kwargs_get d (1/2)),
            Stdout (replicate 100 CHR '' '' @ [CHR 0x0D])]))"
    using probed_round[OF hi ha d, of hb hf mt msg w tr p dots] by metis
  let ?tr3 = "tr @ [Called ''in_loop_before'', Called ''condition_func'',
            Stdout (kwargs_get msg ''Waiting'' @ replicate dots CHR ''.'' @ [CHR 0x0D]),
            Called ''in_loop_after'', Sleep (kwargs_get d (1/2)),
            Stdout (replicate 100 CHR '' '' @ [CHR 0x0D])]"
  have pfj: "fst (p (Suc j) w1) = Inr False" using Suc(5) lt by simp
  have cc: "probe ''condition_func'' p (w1, tr @ [Called ''in_loop_before''])
       = Some (Inr False, (snd (p (Suc (count_list tr (Called ''condition_func''))) w1),
                tr @ [Called ''in_loop_before'', Called ''condition_func'']))"
    using r(2) pfj Suc(3) by simp
  have budget: "m = - 1 \<or> attempt < m" using Suc(6) lt Suc(4) by linarith
  have n: "n = k - Suc j - 1" using Suc(2) by simp
  have j3: "count_list ?tr3 (Called ''condition_func'') = Suc j" using Suc(3) by simp
  have pf3: "\<forall>i w. Suc j < i \<and> i < k \<longrightarrow> fst (p i w) = Inr False" using Suc(5) by simp
  have m3: "m = - 1 \<or> (attempt + 1) + int (k - Suc j) - 1 \<le> m" using Suc(6) lt by linarith
  from Suc(1)[OF n j3 lt pf3 m3, of "if dots > 2 then 1 else dots + 1" w3]
  show ?case
    using wait_loop_again[where condition_func = "probe ''condition_func'' p", OF r(1) cc budget r(3)] by simp
qed

text \<open>Any predicate, under a budget other than \<open>- 1\<close>: the loop returns.\<close>

lemma wait_loop_terminates:
  assumes hi: "normal hi" and ha: "normal ha" and d: "sleep_ok d"
    and m: "m \<noteq> - 1"
  shows "\<exists>r w1 tr1. wait_loop (probe ''condition_func'' p) (probed_kwargs hb hi ha hf mt msg d) m attempt dots (w, tr)
            = Some (r, (w1, tr1))
          \<and> count_list tr1 (Called ''condition_func'')
              \<le> count_list tr (Called ''condition_func'') + nat (m - attempt) + 1"
proof (induction "nat (m - attempt)" arbitrary: attempt dots w tr)
  case 0
  then have ge: "attempt \<ge> m" by simp
  obtain w1 where r:
    "kwargs_get (in_loop_before (probed_kwargs hb hi ha hf mt msg d)) (returns ()) (w, tr)
       = Some (Inr (), (w1, tr @ [Called ''in_loop_before'']))"
    "probe ''condition_func'' p (w1, tr @ [Called ''in_loop_before''])
       = Some (fst (p (Suc (count_list tr (Called ''condition_func''))) w1),
               (snd (p (Suc (count_list tr (Called ''condition_func''))) w1),
                tr @ [Called ''in_loop_before'', Called ''condition_func'']))"
    using probed_round[OF hi ha d, of hb hf mt msg w tr p dots] by metis
  show ?case
  proof (cases "fst (p (Suc (count_list tr (Called ''condition_func''))) w1)")
    case (Inl e)
    have cc: "probe ''condition_func'' p (w1, tr @ [Called ''in_loop_before'']) = Some (Inl e, (snd (p (Suc (count_list tr (Called ''condition_func''))) w1), tr @ [Called ''in_loop_before'', Called ''condition_func'']))"
      using r(2) Inl by simp
    show ?thesis using wait_loop_raise[where condition_func = "probe ''condition_func'' p", OF r(1) cc] by simp
  next
    case (Inr b)
    show ?thesis
    proof (cases b)
      case True
      have cc: "probe ''condition_func'' p (w1, tr @ [Called ''in_loop_before'']) = Some (Inr True, (snd (p (Suc (count_list tr (Called ''condition_func''))) w1), tr @ [Called ''in_loop_before'', Called ''condition_func'']))"
        using r(2) Inr True by simp
      show ?thesis using wait_loop_true[where condition_func = "probe ''condition_func'' p", OF r(1) cc] by simp
    next
      case False
      have cc: "probe ''condition_func'' p (w1, tr @ [Called ''in_loop_before'']) = Some (Inr False, (snd (p (Suc (count_list tr (Called ''condition_func''))) w1), tr @ [Called ''in_loop_before'', Called ''condition_func'']))"
        using r(2) Inr False by simp
      show ?thesis using wait_loop_budget[where condition_func = "probe ''condition_func'' p", OF r(1) cc m ge] by simp
    qed
  qed
next
  case (Suc k)
  then have lt: "m = - 1 \<or> attempt < m" by linarith
  obtain w1 w3 where r:
    "kwargs_get (in_loop_before (probed_kwargs hb hi ha hf mt msg d)) (returns ()) (w, tr)
       = Some (Inr (), (w1, tr @ [Called ''in_loop_before'']))"
    "probe ''condition_func'' p (w1, tr @ [Called ''in_loop_before''])
       = Some (fst (p (Suc (count_list tr (Called ''condition_func''))) w1),
               (snd (p (Suc (count_list tr (Called ''condition_func''))) w1),
                tr @ [Called ''in_loop_before'', Called ''condition_func'']))"
    "loop_tail (probed_kwargs hb hi ha hf mt msg d) dots
        (snd (p (Suc (count_list tr (Called ''condition_func''))) w1),
         tr @ [Called ''in_loop_before'', Called ''condition_func''])
       = Some (Inr (), (w3, tr @ [Called ''in_loop_before'', Called ''condition_func'',
            Stdout (kwargs_get msg ''Waiting'' @ replicate dots CHR ''.'' @ [CHR 0x0D]),
            Called ''in_loop_after'', Sleep (kwargs_get d (1/2)),
            Stdout (replicate 100 CHR '' '' @ [CHR 0x0D])]))"
    using probed_round[OF hi ha d, of hb hf mt msg w tr p dots] by metis
  let ?tr3 = "tr @ [Called ''in_loop_before'', Called ''condition_func'',
            Stdout (kwargs_get msg ''Waiting'' @ replicate dots CHR ''.'' @ [CHR 0x0D]),
            Called ''in_loop_after'', Sleep (kwargs_get d (1/2)),
            Stdout (replicate 100 CHR '' '' @ [CHR 0x0D])]"
  show ?case
  proof (cases "fst (p (Suc (count_list tr (Called ''condition_func''))) w1)")
    case (Inl e)
    have cc: "probe ''condition_func'' p (w1, tr @ [Called ''in_loop_before'']) = Some (Inl e, (snd (p (Suc (count_list tr (Called ''condition_func''))) w1), tr @ [Called ''in_loop_before'', Called ''condition_func'']))"
      using r(2) Inl by simp
    show ?thesis using wait_loop_raise[where condition_func = "probe ''condition_func'' p", OF r(1) cc] by simp
  next
    case (Inr b)
    show ?thesis
    proof (cases b)
      case True
      have cc: "probe ''condition_func'' p (w1, tr @ [Called ''in_loop_before'']) = Some (Inr True, (snd (p (Suc (count_list tr (Called ''condition_func''))) w1), tr @ [Called ''in_loop_before'', Called ''condition_func'']))"
        using r(2) Inr True by simp
      show ?thesis using wait_loop_true[where condition_func = "probe ''condition_func'' p", OF r(1) cc] by simp
    next
      case False
      have cc: "probe ''condition_func'' p (w1, tr @ [Called ''in_loop_before'']) = Some (Inr False, (snd (p (Suc (count_list tr (Called ''condition_func''))) w1), tr @ [Called ''in_loop_before'', Called ''condition_func'']))"
        using r(2) Inr False by simp
      have k: "k = nat (m - (attempt + 1))" using Suc(2) by linarith
      have n: "nat (m - attempt) = nat (m - (attempt + 1)) + 1" using Suc(2) by linarith
      obtain r4 w4 tr4 where r4: "wait_loop (probe ''condition_func'' p) (probed_kwargs hb hi ha hf mt msg d) m (attempt + 1)
           (if dots > 2 then 1 else dots + 1) (w3, ?tr3) = Some (r4, (w4, tr4))"
        and c4: "count_list tr4 (Called ''condition_func'')
           \<le> count_list ?tr3 (Called ''condition_func'') + nat (m - (attempt + 1)) + 1"
        using Suc(1)[OF k, of "if dots > 2 then 1 else dots + 1" w3 ?tr3] by blast
      have "wait_loop (probe ''condition_func'' p) (probed_kwargs hb hi ha hf mt msg d) m attempt dots (w, tr) = Some (r4, (w4, tr4))"
        using wait_loop_again[where condition_func = "probe ''condition_func'' p", OF r(1) cc lt r(3)] r4 by simp
      moreover have "count_list tr4 (Called ''condition_func'')
          \<le> count_list tr (Called ''condition_func'') + nat (m - attempt) + 1"
        using c4 n by simp
      ultimately show ?thesis by blast
    qed
  qed
qed

text \<open>Under the budget \<open>- 1\<close> the loop never reports that it did not complete.\<close>

lemma wait_loop_unbounded_result:
  "wait_loop condition_func kwargs m attempt dots st = Some y \<Longrightarrow> m = - 1 \<longrightarrow> fst y \<noteq> Inr True"
proof (induction rule: wait_loop.raw_induct[rotated 1, consumes 1])
  case (1 f c kw m a d st y)
  show ?case
  proof
    assume m: "m = - 1"
    from 1(2) m show "fst y \<noteq> Inr True"
      by (auto split: option.splits sum.splits if_splits prod.splits dest!: 1(1))
  qed
qed

text \<open>Under the budget \<open>- 1\<close> and a predicate that is never true, the loop does not
  return.\<close>

lemma wait_loop_diverges:
  assumes hi: "normal hi" and ha: "normal ha" and d: "sleep_ok d"
    and p: "\<forall>n w. fst (p n w) = Inr False"
  shows "wait_loop (probe ''condition_func'' p) (probed_kwargs hb hi ha hf mt msg d) (- 1) attempt dots st = None"
proof -
  have aux: "wait_loop c kw m a ds s = Some y \<Longrightarrow>
        c = probe ''condition_func'' p \<and> kw = (probed_kwargs hb hi ha hf mt msg d) \<and> m = - 1 \<longrightarrow> False"
    for c kw m a ds s y
  proof (induction rule: wait_loop.raw_induct[rotated 1, consumes 1])
    case (1 f c kw m a dots s y)
    show ?case
    proof
      assume a: "c = probe ''condition_func'' p \<and> kw = (probed_kwargs hb hi ha hf mt msg d) \<and> m = - 1"
      then have ceq: "c = probe ''condition_func'' p" and kweq: "kw = (probed_kwargs hb hi ha hf mt msg d)" and meq: "m = - 1"
        by simp_all
      obtain w tr where s: "s = (w, tr)" by (cases s)
  obtain w1 w3 where r:
    "kwargs_get (in_loop_before (probed_kwargs hb hi ha hf mt msg d)) (returns ()) (w, tr)
       = Some (Inr (), (w1, tr @ [Called ''in_loop_before'']))"
    "probe ''condition_func'' p (w1, tr @ [Called ''in_loop_before''])
       = Some (fst (p (Suc (count_list tr (Called ''condition_func''))) w1),
               (snd (p (Suc (count_list tr (Called ''condition_func''))) w1),
                tr @ [Called ''in_loop_before'', Called ''condition_func'']))"
    "loop_tail (probed_kwargs hb hi ha hf mt msg d) dots
        (snd (p (Suc (count_list tr (Called ''condition_func''))) w1),
         tr @ [Called ''in_loop_before'', Called ''condition_func''])
       = Some (Inr (), (w3, tr @ [Called ''in_loop_before'', Called ''condition_func'',
            Stdout (kwargs_get msg ''Waiting'' @ replicate dots CHR ''.'' @ [CHR 0x0D]),
            Called ''in_loop_after'', Sleep (kwargs_get d (1/2)),
            Stdout (replicate 100 CHR '' '' @ [CHR 0x0D])]))"
    using probed_round[OF hi ha d, of hb hf mt msg w tr p dots] by metis
  let ?tr3 = "tr @ [Called ''in_loop_before'', Called ''condition_func'',
            Stdout (kwargs_get msg ''Waiting'' @ replicate dots CHR ''.'' @ [CHR 0x0D]),
            Called ''in_loop_after'', Sleep (kwargs_get d (1/2)),
            Stdout (replicate 100 CHR '' '' @ [CHR 0x0D])]"
  have cc: "probe ''condition_func'' p (w1, tr @ [Called ''in_loop_before'']) = Some (Inr False, (snd (p (Suc (count_list tr (Called ''condition_func''))) w1), tr @ [Called ''in_loop_before'', Called ''condition_func'']))"
    using r(2) p by simp
      from 1(2) have "f (probe ''condition_func'' p) (probed_kwargs hb hi ha hf mt msg d) (- 1) (a + 1) (if 2 < dots then 1 else dots + 1)
          (w3, ?tr3) = Some y"
        unfolding s ceq kweq meq by (simp add: r(1) cc r(3) del: append.simps append_assoc)
      from 1(1)[OF this] show False by simp
    qed
  qed
  show ?thesis
  proof (cases "wait_loop (probe ''condition_func'' p) (probed_kwargs hb hi ha hf mt msg d) (- 1) attempt dots st")
    case None
    then show ?thesis .
  next
    case (Some y)
    from aux[OF Some] show ?thesis by simp
  qed
qed

subsection \<open>wait_until around the loop\<close>

lemma wait_until_probed:
  assumes hb: "normal hb" and hf: "normal hf"
  obtains w0 where
    "\<And>nc w1 tr1. wait_loop c (probed_kwargs hb hi ha hf mt msg d) (kwargs_get mt (- 1)) 0 1
           (w0, tr @ [Called ''before_loop'']) = Some (Inr nc, (w1, tr1)) \<Longrightarrow>
       \<exists>w2. wait_until c (probed_kwargs hb hi ha hf mt msg d) (w, tr)
              = Some (Inr (\<not> nc), (w2, tr1 @ [Called ''after_loop'']))"
    "\<And>e st1. wait_loop c (probed_kwargs hb hi ha hf mt msg d) (kwargs_get mt (- 1)) 0 1
           (w0, tr @ [Called ''before_loop'']) = Some (Inl e, st1) \<Longrightarrow>
       wait_until c (probed_kwargs hb hi ha hf mt msg d) (w, tr) = Some (Inl e, st1)"
    "wait_loop c (probed_kwargs hb hi ha hf mt msg d) (kwargs_get mt (- 1)) 0 1
           (w0, tr @ [Called ''before_loop'']) = None \<Longrightarrow>
       wait_until c (probed_kwargs hb hi ha hf mt msg d) (w, tr) = None"
proof -
  obtain w0 where b: "probe ''before_loop'' hb (w, tr) = Some (Inr (), (w0, tr @ [Called ''before_loop'']))"
    using probe_normal[OF hb] by blast
  have 1: "\<exists>w2. wait_until c (probed_kwargs hb hi ha hf mt msg d) (w, tr)
              = Some (Inr (\<not> nc), (w2, tr1 @ [Called ''after_loop'']))"
    if "wait_loop c (probed_kwargs hb hi ha hf mt msg d) (kwargs_get mt (- 1)) 0 1
          (w0, tr @ [Called ''before_loop'']) = Some (Inr nc, (w1, tr1))" for nc w1 tr1
  proof -
    obtain w2 where a: "probe ''after_loop'' hf (w1, tr1) = Some (Inr (), (w2, tr1 @ [Called ''after_loop'']))"
      using probe_normal[OF hf] by blast
    have "wait_until c (probed_kwargs hb hi ha hf mt msg d) (w, tr)
            = Some (Inr (\<not> nc), (w2, tr1 @ [Called ''after_loop'']))"
      using that b a
      by (simp add: wait_until_def seq_def bind_def returns_def probed_kwargs_def kwargs_get_def)
    then show ?thesis by blast
  qed
  have 2: "wait_until c (probed_kwargs hb hi ha hf mt msg d) (w, tr) = Some (Inl e, st1)"
    if "wait_loop c (probed_kwargs hb hi ha hf mt msg d) (kwargs_get mt (- 1)) 0 1
          (w0, tr @ [Called ''before_loop'']) = Some (Inl e, st1)" for e st1
    using that b
    by (simp add: wait_until_def seq_def bind_def returns_def probed_kwargs_def kwargs_get_def)
  have 3: "wait_until c (probed_kwargs hb hi ha hf mt msg d) (w, tr) = None"
    if "wait_loop c (probed_kwargs hb hi ha hf mt msg d) (kwargs_get mt (- 1)) 0 1
          (w0, tr @ [Called ''before_loop'']) = None"
    using that b
    by (simp add: wait_until_def seq_def bind_def returns_def probed_kwargs_def kwargs_get_def)
  from that[of w0] 1 2 3 show thesis by blast
qed

text \<open>Whatever the predicate and the hooks: under the budget \<open>- 1\<close>, \<open>wait_until\<close> does
  not return false.\<close>

lemma wait_until_unbounded_not_false:
  assumes "kwargs_get (max_tries kwargs) (- 1) = - 1"
  shows "wait_until condition_func kwargs st \<noteq> Some (Inr False, st1)"
proof
  assume a: "wait_until condition_func kwargs st = Some (Inr False, st1)"
  then obtain st0 y where
    l: "wait_loop condition_func kwargs (- 1) 0 1 st0 = Some y" and y: "fst y = Inr True"
    using assms
    by (auto simp: wait_until_def seq_def bind_def returns_def
             split: option.splits sum.splits prod.splits)
  from wait_loop_unbounded_result[OF l] y show False by simp
qed

subsection \<open>The retry wrapper\<close>

lemma catches_common: "catches COMMON_EXCEPTIONS e = is_selenium (exn_cls e)"
  by (cases "exn_cls e") (simp_all add: catches_def COMMON_EXCEPTIONS_def issubclass_def)

lemma wrapper_exhausted:
  assumes f: "\<forall>n w. \<exists>e. fst (f n w) = Inl e \<and> catches COMMON_EXCEPTIONS e"
  shows "\<exists>w1. wrapper (probe ''func'' f) retry max_retries (w, tr) =
            Some (Inl (Exn Exception ''Maximum retries reached!''),
                  (w1, tr @ concat (replicate (nat (max_retries - retry)) [Called ''func'', Sleep 5])))"
proof (induction "nat (max_retries - retry)" arbitrary: retry w tr)
  case 0
  then have "retry \<ge> max_retries" by simp
  then show ?case using 0 by (subst wrapper.simps) (simp add: raise_def)
next
  case (Suc k)
  then have lt: "\<not> retry \<ge> max_retries" by linarith
  obtain e where e: "fst (f (Suc (count_list tr (Called ''func''))) w) = Inl e"
      "catches COMMON_EXCEPTIONS e"
    using f by blast
  let ?w1 = "snd (f (Suc (count_list tr (Called ''func''))) w)"
  have p: "probe ''func'' f (w, tr) = Some (Inl e, (?w1, tr @ [Called ''func'']))"
    using e by (simp add: probe_apply)
  have k: "k = nat (max_retries - (retry + 1))" using Suc(2) by linarith
  have n: "nat (max_retries - retry) = Suc (nat (max_retries - (retry + 1)))"
    using Suc(2) by linarith
  obtain w2 where r: "wrapper (probe ''func'' f) (retry + 1) max_retries
         (?w1, tr @ [Called ''func'', Sleep 5]) =
       Some (Inl (Exn Exception ''Maximum retries reached!''),
             (w2, (tr @ [Called ''func'', Sleep 5]) @
                  concat (replicate (nat (max_retries - (retry + 1))) [Called ''func'', Sleep 5])))"
    using Suc(1)[OF k, of ?w1 "tr @ [Called ''func'', Sleep 5]"] by blast
  have "wrapper (probe ''func'' f) retry max_retries (w, tr) =
        wrapper (probe ''func'' f) (retry + 1) max_retries (?w1, tr @ [Called ''func'', Sleep 5])"
    using lt p e(2) by (subst wrapper.simps) (simp add: py_sleep_def)
  then show ?case using r n by simp
qed

lemma wrapper_propagates:
  assumes "retry < max_retries" and "func st = Some (Inl e, st1)"
    and "\<not> catches COMMON_EXCEPTIONS e"
  shows "wrapper func retry max_retries st = Some (Inl e, st1)"
  using assms by (subst wrapper.simps) simp

lemma wrapper_retries:
  assumes "retry < max_retries" and "func st = Some (Inl e, st1)"
    and "catches COMMON_EXCEPTIONS e"
  shows "wrapper func retry max_retries st =
         wrapper func (retry + 1) max_retries (fst st1, snd st1 @ [Sleep 5])"
  using assms by (subst wrapper.simps) (simp add: py_sleep_def)

lemma wrapper_returns:
  assumes "retry < max_retries" and "func st = Some (Inr a, st1)"
  shows "wrapper func retry max_retries st = Some (Inr a, st1)"
  using assms by (subst wrapper.simps) simp

lemma count_list_concat_replicate:
  "count_list (concat (replicate n [Called ''func'', Sleep 5])) (Called ''func'') = n"
  by (induction n) simp_all

subsection \<open>wait_until under a budget other than - 1, and under - 1\<close>

lemma wait_until_budget_never_true:
  assumes m: "M \<noteq> - 1" and hb: "normal hb" and hi: "normal hi" and ha: "normal ha"
    and hf: "normal hf" and d: "sleep_ok d" and p: "\<forall>n w. fst (p n w) = Inr False"
  shows "outcome (wait_until (probe ''condition_func'' p)
                    (probed_kwargs hb hi ha hf (Some M) msg d) (w, [])) = Some (Inr False)
       \<and> calls_of ''condition_func'' (wait_until (probe ''condition_func'' p)
                    (probed_kwargs hb hi ha hf (Some M) msg d) (w, [])) = Some (nat M + 1)"
proof -
  let ?kw = "probed_kwargs hb hi ha hf (Some M) msg d"
  obtain w0 where u:
    "\<And>nc w1 tr1. wait_loop (probe ''condition_func'' p) ?kw (kwargs_get (Some M) (- 1)) 0 1
           (w0, [] @ [Called ''before_loop'']) = Some (Inr nc, (w1, tr1)) \<Longrightarrow>
       \<exists>w2. wait_until (probe ''condition_func'' p) ?kw (w, [])
              = Some (Inr (\<not> nc), (w2, tr1 @ [Called ''after_loop'']))"
    using wait_until_probed[OF hb hf, of "probe ''condition_func'' p" hi ha "Some M" msg d "[]" w]
    by metis
  obtain w1 tr1 where l: "wait_loop (probe ''condition_func'' p) ?kw M 0 1
        (w0, [Called ''before_loop'']) = Some (Inr True, (w1, tr1))"
    and c: "count_list tr1 (Called ''condition_func'')
        = count_list [Called ''before_loop''] (Called ''condition_func'') + nat (M - 0) + 1"
    using wait_loop_never_true[OF hi ha d p m, of hb hf "Some M" msg 0 1 w0
        "[Called ''before_loop'']"] by blast
  from u[of True w1 tr1] l obtain w2 where
    "wait_until (probe ''condition_func'' p) ?kw (w, [])
       = Some (Inr False, (w2, tr1 @ [Called ''after_loop'']))"
    by (auto simp: kwargs_get_def)
  then show ?thesis using c by (simp add: outcome_def calls_of_def)
qed

lemma wait_until_budget_returns:
  assumes m: "M \<noteq> - 1" and hb: "normal hb" and hi: "normal hi" and ha: "normal ha"
    and hf: "normal hf" and d: "sleep_ok d"
  shows "\<exists>n. calls_of ''condition_func'' (wait_until (probe ''condition_func'' q)
                  (probed_kwargs hb hi ha hf (Some M) msg d) (w, [])) = Some n
              \<and> n \<le> nat M + 1"
proof -
  let ?kw = "probed_kwargs hb hi ha hf (Some M) msg d"
  obtain w0 where u:
    "\<And>nc w1 tr1. wait_loop (probe ''condition_func'' q) ?kw (kwargs_get (Some M) (- 1)) 0 1
           (w0, [] @ [Called ''before_loop'']) = Some (Inr nc, (w1, tr1)) \<Longrightarrow>
       \<exists>w2. wait_until (probe ''condition_func'' q) ?kw (w, [])
              = Some (Inr (\<not> nc), (w2, tr1 @ [Called ''after_loop'']))"
    "\<And>e st1. wait_loop (probe ''condition_func'' q) ?kw (kwargs_get (Some M) (- 1)) 0 1
           (w0, [] @ [Called ''before_loop'']) = Some (Inl e, st1) \<Longrightarrow>
       wait_until (probe ''condition_func'' q) ?kw (w, []) = Some (Inl e, st1)"
    using wait_until_probed[OF hb hf, of "probe ''condition_func'' q" hi ha "Some M" msg d "[]" w]
    by metis
  obtain r w1 tr1 where l: "wait_loop (probe ''condition_func'' q) ?kw M 0 1
        (w0, [Called ''before_loop'']) = Some (r, (w1, tr1))"
    and c: "count_list tr1 (Called ''condition_func'')
        \<le> count_list [Called ''before_loop''] (Called ''condition_func'') + nat (M - 0) + 1"
    using wait_loop_terminates[OF hi ha d m, of q hb hf "Some M" msg 0 1 w0
        "[Called ''before_loop'']"] by blast
  show ?thesis
  proof (cases r)
    case (Inl e)
    from u(2)[of e "(w1, tr1)"] l Inl
    have "wait_until (probe ''condition_func'' q) ?kw (w, []) = Some (Inl e, (w1, tr1))"
      by (simp add: kwargs_get_def)
    then show ?thesis using c by (simp add: calls_of_def)
  next
    case (Inr nc)
    from u(1)[of nc w1 tr1] l Inr obtain w2 where
      "wait_until (probe ''condition_func'' q) ?kw (w, [])
         = Some (Inr (\<not> nc), (w2, tr1 @ [Called ''after_loop'']))"
      by (auto simp: kwargs_get_def)
    then show ?thesis using c by (simp add: calls_of_def)
  qed
qed

lemma wait_until_sentinel_diverges:
  assumes mt: "kwargs_get mt (- 1) = - 1"
    and hb: "normal hb" and hi: "normal hi" and ha: "normal ha"
    and hf: "normal hf" and d: "sleep_ok d" and p: "\<forall>n w. fst (p n w) = Inr False"
  shows "wait_until (probe ''condition_func'' p)
           (probed_kwargs hb hi ha hf mt msg d) (w, tr) = None"
proof -
  let ?kw = "probed_kwargs hb hi ha hf mt msg d"
  obtain w0 where u:
    "wait_loop (probe ''condition_func'' p) ?kw (kwargs_get mt (- 1)) 0 1
           (w0, tr @ [Called ''before_loop'']) = None \<Longrightarrow>
       wait_until (probe ''condition_func'' p) ?kw (w, tr) = None"
    using wait_until_probed[OF hb hf, of "probe ''condition_func'' p" hi ha mt msg d tr w]
    by metis
  have "wait_loop (probe ''condition_func'' p) ?kw (- 1) 0 1
          (w0, tr @ [Called ''before_loop'']) = None"
    using wait_loop_diverges[OF hi ha d p] .
  with u mt show ?thesis by simp
qed

section \<open>The claims on wait_until\<close>




text \<open>
  C5. With a budget \<open>M \<ge> 0\<close>, hooks that return and a predicate whose \<open>k\<close>-th evaluation is
  the first true one, \<open>1 \<le> k \<le> M\<close>: \<open>wait_until\<close> returns \<open>True\<close>, and the predicate has
  been evaluated \<open>k\<close> times.
\<close>

theorem wait_until_first_true:
  assumes "1 \<le> k" and "int k \<le> M"
    and "normal hb" and "normal hi" and "normal ha" and "normal hf" and "sleep_ok d"
    and "\<forall>i w. 0 < i \<and> i < k \<longrightarrow> fst (p i w) = Inr False"
    and "\<forall>w. fst (p k w) = Inr True"
  shows "outcome (wait_until (probe ''condition_func'' p)
                    (probed_kwargs hb hi ha hf (Some M) msg d) (w, [])) = Some (Inr True)
       \<and> calls_of ''condition_func'' (wait_until (probe ''condition_func'' p)
                    (probed_kwargs hb hi ha hf (Some M) msg d) (w, [])) = Some k"
proof -
  let ?kw = "probed_kwargs hb hi ha hf (Some M) msg d"
  obtain w0 where u:
    "\<And>nc w1 tr1. wait_loop (probe ''condition_func'' p) ?kw (kwargs_get (Some M) (- 1)) 0 1
           (w0, [] @ [Called ''before_loop'']) = Some (Inr nc, (w1, tr1)) \<Longrightarrow>
       \<exists>w2. wait_until (probe ''condition_func'' p) ?kw (w, [])
              = Some (Inr (\<not> nc), (w2, tr1 @ [Called ''after_loop'']))"
    using wait_until_probed[OF assms(3) assms(6), of "probe ''condition_func'' p" hi ha "Some M" msg d "[]" w]
    by metis
  have j: "count_list [Called ''before_loop''] (Called ''condition_func'') = 0" by simp
  have jk: "0 < k" using assms(1) by simp
  have m: "M = - 1 \<or> 0 + int (k - 0) - 1 \<le> M" using assms(2) by simp
  obtain w1 tr1 where l: "wait_loop (probe ''condition_func'' p) ?kw M 0 1 (w0, [Called ''before_loop''])
        = Some (Inr False, (w1, tr1))"
    and c: "count_list tr1 (Called ''condition_func'') = k"
    using wait_loop_first_true[OF assms(4) assms(5) assms(7) j jk assms(8) assms(9) m,
        of hb hf "Some M" msg 1 w0] by blast
  from u[of False w1 tr1] l obtain w2 where
    "wait_until (probe ''condition_func'' p) ?kw (w, []) = Some (Inr True, (w2, tr1 @ [Called ''after_loop'']))"
    by (auto simp: kwargs_get_def)
  then show ?thesis using c by (simp add: outcome_def calls_of_def)
qed

theorem wait_until_first_true_witness:
  "outcome (wait_until (probe ''condition_func'' (true_at 2))
      (probed_kwargs noop_hook noop_hook noop_hook noop_hook (Some 3) None (Some 0)) ((), []))
     = Some (Inr True)
   \<and> calls_of ''condition_func'' (wait_until (probe ''condition_func'' (true_at 2))
        (probed_kwargs noop_hook noop_hook noop_hook noop_hook (Some 3) None (Some 0)) ((), []))
     = Some 2"
  using wait_until_first_true[of 2 3 noop_hook noop_hook noop_hook noop_hook "Some 0" "true_at 2" None "()"]
  by (simp add: normal_def noop_hook_def true_at_def sleep_ok_def)

text \<open>
  C10. With a budget \<open>M \<ge> 0\<close> and hooks that return, \<open>wait_until\<close> returns for every
  predicate (true, false or raising at any of its evaluations), and has then evaluated it
  at most \<open>M + 1\<close> times. With the budget omitted and a predicate \<open>q\<close> that is never true,
  it does not return.
\<close>

theorem wait_until_terminates:
  assumes "0 \<le> M" and "normal hb" and "normal hi" and "normal ha" and "normal hf"
    and "sleep_ok d" and "\<forall>n w. fst (q n w) = Inr False"
  shows "(\<exists>n. calls_of ''condition_func'' (wait_until (probe ''condition_func'' p)
                  (probed_kwargs hb hi ha hf (Some M) msg d) (w, [])) = Some n
              \<and> n \<le> nat M + 1)
       \<and> wait_until (probe ''condition_func'' q)
            (probed_kwargs hb hi ha hf None msg d) (w, []) = None"
proof
  let ?kw = "probed_kwargs hb hi ha hf (Some M) msg d"
  from assms(1) have m: "M \<noteq> - 1" by simp
  obtain w0 where u:
    "\<And>nc w1 tr1. wait_loop (probe ''condition_func'' p) ?kw (kwargs_get (Some M) (- 1)) 0 1
           (w0, [] @ [Called ''before_loop'']) = Some (Inr nc, (w1, tr1)) \<Longrightarrow>
       \<exists>w2. wait_until (probe ''condition_func'' p) ?kw (w, [])
              = Some (Inr (\<not> nc), (w2, tr1 @ [Called ''after_loop'']))"
    "\<And>e st1. wait_loop (probe ''condition_func'' p) ?kw (kwargs_get (Some M) (- 1)) 0 1
           (w0, [] @ [Called ''before_loop'']) = Some (Inl e, st1) \<Longrightarrow>
       wait_until (probe ''condition_func'' p) ?kw (w, []) = Some (Inl e, st1)"
    using wait_until_probed[OF assms(2) assms(5), of "probe ''condition_func'' p" hi ha "Some M" msg d "[]" w]
    by metis
  obtain r w1 tr1 where l: "wait_loop (probe ''condition_func'' p) ?kw M 0 1 (w0, [Called ''before_loop''])
        = Some (r, (w1, tr1))"
    and c: "count_list tr1 (Called ''condition_func'')
        \<le> count_list [Called ''before_loop''] (Called ''condition_func'') + nat (M - 0) + 1"
    using wait_loop_terminates[OF assms(3) assms(4) assms(6) m, of p hb hf "Some M" msg 0 1 w0
        "[Called ''before_loop'']"] by blast
  show "\<exists>n. calls_of ''condition_func'' (wait_until (probe ''condition_func'' p) ?kw (w, [])) = Some n
            \<and> n \<le> nat M + 1"
  proof (cases r)
    case (Inl e)
    from u(2)[of e "(w1, tr1)"] l Inl
    have "wait_until (probe ''condition_func'' p) ?kw (w, []) = Some (Inl e, (w1, tr1))"
      by (simp add: kwargs_get_def)
    then show ?thesis using c by (simp add: calls_of_def)
  next
    case (Inr nc)
    from u(1)[of nc w1 tr1] l Inr obtain w2 where
      "wait_until (probe ''condition_func'' p) ?kw (w, [])
         = Some (Inr (\<not> nc), (w2, tr1 @ [Called ''after_loop'']))"
      by (auto simp: kwargs_get_def)
    then show ?thesis using c by (simp add: calls_of_def)
  qed
next
  let ?kw = "probed_kwargs hb hi ha hf None msg d"
  obtain w0 where u:
    "wait_loop (probe ''condition_func'' q) ?kw (kwargs_get None (- 1)) 0 1
           (w0, [] @ [Called ''before_loop'']) = None \<Longrightarrow>
       wait_until (probe ''condition_func'' q) ?kw (w, []) = None"
    using wait_until_probed[OF assms(2) assms(5), of "probe ''condition_func'' q" hi ha None msg d "[]" w]
    by metis
  have "wait_loop (probe ''condition_func'' q) ?kw (- 1) 0 1 (w0, [Called ''before_loop'']) = None"
    using wait_loop_diverges[OF assms(3) assms(4) assms(6) assms(7)] .
  with u show "wait_until (probe ''condition_func'' q) ?kw (w, []) = None"
    by (simp add: kwargs_get_def)
qed

theorem wait_until_terminates_witness:
  "(\<exists>n. calls_of ''condition_func'' (wait_until (probe ''condition_func'' (true_at 5))
            (probed_kwargs noop_hook noop_hook noop_hook noop_hook (Some 3) None (Some 0)) ((), []))
          = Some n \<and> n \<le> 4)
   \<and> wait_until (probe ''condition_func'' always_false)
        (probed_kwargs noop_hook noop_hook noop_hook noop_hook None None (Some 0)) ((), []) = None"
  using wait_until_terminates[of 3 noop_hook noop_hook noop_hook noop_hook "Some 0" always_false
      "true_at 5" None "()"]
  by (simp add: normal_def noop_hook_def always_false_def sleep_ok_def)

text \<open>
  C3, as the code has it. Only the budget \<open>- 1\<close> is unbounded, given or as the default of an
  omitted \<open>max_tries\<close>: with it, \<open>wait_until\<close> never returns \<open>False\<close>, whatever the
  predicate and the hooks, and with hooks that return and a predicate that is never true
  it does not return at all. Under every other budget \<open>M\<close>, the negative ones included,
  \<open>wait_until\<close> returns for every predicate \<open>q\<close>, after at most \<open>nat M + 1\<close> evaluations,
  and for a predicate that is never true it returns \<open>False\<close> after \<open>nat M + 1\<close> evaluations:
  one evaluation when \<open>M < - 1\<close>.
\<close>

theorem wait_until_unbounded:
  assumes "normal hb" and "normal hi" and "normal ha" and "normal hf"
    and "sleep_ok d" and "\<forall>n w. fst (p n w) = Inr False"
  shows "wait_until (probe ''condition_func'' p)
            (probed_kwargs hb hi ha hf (Some (- 1)) msg d) (w, tr) = None
       \<and> wait_until (probe ''condition_func'' p)
            (probed_kwargs hb hi ha hf None msg d) (w, tr) = None
       \<and> (max_tries kwargs = Some (- 1) \<or> max_tries kwargs = None \<longrightarrow>
            wait_until condition_func kwargs st \<noteq> Some (Inr False, st1))
       \<and> (M \<noteq> - 1 \<longrightarrow>
            (\<exists>n. calls_of ''condition_func'' (wait_until (probe ''condition_func'' q)
                     (probed_kwargs hb hi ha hf (Some M) msg d) (w, [])) = Some n
                 \<and> n \<le> nat M + 1)
          \<and> outcome (wait_until (probe ''condition_func'' p)
               (probed_kwargs hb hi ha hf (Some M) msg d) (w, [])) = Some (Inr False)
          \<and> calls_of ''condition_func'' (wait_until (probe ''condition_func'' p)
               (probed_kwargs hb hi ha hf (Some M) msg d) (w, [])) = Some (nat M + 1))"
proof -
  have 1: "wait_until (probe ''condition_func'' p)
            (probed_kwargs hb hi ha hf (Some (- 1)) msg d) (w, tr) = None"
    by (rule wait_until_sentinel_diverges[OF _ assms]) (simp add: kwargs_get_def)
  have 2: "wait_until (probe ''condition_func'' p)
            (probed_kwargs hb hi ha hf None msg d) (w, tr) = None"
    by (rule wait_until_sentinel_diverges[OF _ assms]) (simp add: kwargs_get_def)
  have 3: "max_tries kwargs = Some (- 1) \<or> max_tries kwargs = None \<longrightarrow>
            wait_until condition_func kwargs st \<noteq> Some (Inr False, st1)"
  proof
    assume "max_tries kwargs = Some (- 1) \<or> max_tries kwargs = None"
    then have "kwargs_get (max_tries kwargs) (- 1) = - 1" by (auto simp: kwargs_get_def)
    then show "wait_until condition_func kwargs st \<noteq> Some (Inr False, st1)"
      by (rule wait_until_unbounded_not_false)
  qed
  have 4: "M \<noteq> - 1 \<longrightarrow>
            (\<exists>n. calls_of ''condition_func'' (wait_until (probe ''condition_func'' q)
                     (probed_kwargs hb hi ha hf (Some M) msg d) (w, [])) = Some n
                 \<and> n \<le> nat M + 1)
          \<and> outcome (wait_until (probe ''condition_func'' p)
               (probed_kwargs hb hi ha hf (Some M) msg d) (w, [])) = Some (Inr False)
          \<and> calls_of ''condition_func'' (wait_until (probe ''condition_func'' p)
               (probed_kwargs hb hi ha hf (Some M) msg d) (w, [])) = Some (nat M + 1)"
  proof
    assume m: "M \<noteq> - 1"
    from wait_until_budget_returns[OF m assms(1) assms(2) assms(3) assms(4) assms(5)]
      wait_until_budget_never_true[OF m assms]
    show "(\<exists>n. calls_of ''condition_func'' (wait_until (probe ''condition_func'' q)
                     (probed_kwargs hb hi ha hf (Some M) msg d) (w, [])) = Some n
                 \<and> n \<le> nat M + 1)
          \<and> outcome (wait_until (probe ''condition_func'' p)
               (probed_kwargs hb hi ha hf (Some M) msg d) (w, [])) = Some (Inr False)
          \<and> calls_of ''condition_func'' (wait_until (probe ''condition_func'' p)
               (probed_kwargs hb hi ha hf (Some M) msg d) (w, [])) = Some (nat M + 1)"
      by blast
  qed
  from 1 2 3 4 show ?thesis by blast
qed

text \<open>At concrete inputs: under \<open>- 1\<close>, given or by default, a predicate that is never true
  is polled without end, and a predicate that is true at its second evaluation gives
  \<open>True\<close>, never \<open>False\<close>; under \<open>- 3\<close> the poller returns after one evaluation.\<close>

theorem wait_until_unbounded_witness:
  "wait_until (probe ''condition_func'' always_false)
      (probed_kwargs noop_hook noop_hook noop_hook noop_hook (Some (- 1)) None (Some 0)) ((), []) = None
   \<and> wait_until (probe ''condition_func'' always_false)
      (probed_kwargs noop_hook noop_hook noop_hook noop_hook None None (Some 0)) ((), []) = None
   \<and> (\<forall>st1. wait_until (probe ''condition_func'' (true_at 2))
          (probed_kwargs noop_hook noop_hook noop_hook noop_hook (Some (- 1)) None (Some 0)) ((), [])
        \<noteq> Some (Inr False, st1))
   \<and> outcome (wait_until (probe ''condition_func'' (true_at 2))
          (probed_kwargs noop_hook noop_hook noop_hook noop_hook (Some (- 1)) None (Some 0)) ((), []))
        = Some (Inr True)
   \<and> (\<exists>n. calls_of ''condition_func'' (wait_until (probe ''condition_func'' (true_at 5))
          (probed_kwargs noop_hook noop_hook noop_hook noop_hook (Some (- 3)) None (Some 0)) ((), []))
        = Some n \<and> n \<le> 1)
   \<and> outcome (wait_until (probe ''condition_func'' always_false)
          (probed_kwargs noop_hook noop_hook noop_hook noop_hook (Some (- 3)) None (Some 0)) ((), []))
        = Some (Inr False)
   \<and> calls_of ''condition_func'' (wait_until (probe ''condition_func'' always_false)
          (probed_kwargs noop_hook noop_hook noop_hook noop_hook (Some (- 3)) None (Some 0)) ((), []))
        = Some 1"
proof -
  have t: "outcome (wait_until (probe ''condition_func'' (true_at 2))
          (probed_kwargs noop_hook noop_hook noop_hook noop_hook (Some (- 1)) None (Some 0)) ((), []))
        = Some (Inr True)"
    by (simp add: wait_until_def seq_def bind_def returns_def probed_kwargs_def kwargs_get_def
        probe_def call_def true_at_def noop_hook_def wait_loop.simps loop_tail_def
        py_print_cr_def py_sleep_def outcome_def)
  have n: "normal noop_hook" by (simp add: normal_def noop_hook_def)
  have s: "sleep_ok (Some 0)" by (simp add: sleep_ok_def)
  have f: "\<forall>n w. fst (always_false n w) = Inr False" by (simp add: always_false_def)
  have k: "max_tries (probed_kwargs noop_hook noop_hook noop_hook noop_hook (Some (- 1)) None (Some 0))
             = Some (- 1)
           \<or> max_tries (probed_kwargs noop_hook noop_hook noop_hook noop_hook (Some (- 1)) None (Some 0))
             = None"
    by (simp add: probed_kwargs_def)
  have m: "(- 3::int) \<noteq> - 1" by simp
  have u: "wait_until (probe ''condition_func'' always_false)
      (probed_kwargs noop_hook noop_hook noop_hook noop_hook (Some (- 1)) None (Some 0)) ((), []) = None
    \<and> wait_until (probe ''condition_func'' always_false)
      (probed_kwargs noop_hook noop_hook noop_hook noop_hook None None (Some 0)) ((), []) = None
    \<and> wait_until (probe ''condition_func'' (true_at 2))
          (probed_kwargs noop_hook noop_hook noop_hook noop_hook (Some (- 1)) None (Some 0)) ((), [])
        \<noteq> Some (Inr False, st1)
    \<and> (\<exists>n. calls_of ''condition_func'' (wait_until (probe ''condition_func'' (true_at 5))
          (probed_kwargs noop_hook noop_hook noop_hook noop_hook (Some (- 3)) None (Some 0)) ((), []))
        = Some n \<and> n \<le> nat (- 3) + 1)
    \<and> outcome (wait_until (probe ''condition_func'' always_false)
          (probed_kwargs noop_hook noop_hook noop_hook noop_hook (Some (- 3)) None (Some 0)) ((), []))
        = Some (Inr False)
    \<and> calls_of ''condition_func'' (wait_until (probe ''condition_func'' always_false)
          (probed_kwargs noop_hook noop_hook noop_hook noop_hook (Some (- 3)) None (Some 0)) ((), []))
        = Some (nat (- 3) + 1)" for st1
    using wait_until_unbounded[OF n n n n s f, of None "()" "[]"
        "probed_kwargs noop_hook noop_hook noop_hook noop_hook (Some (- 1)) None (Some 0)"
        "probe ''condition_func'' (true_at 2)" "((), [])" st1 "- 3" "true_at 5"] k m
    by blast
  from u t show ?thesis by simp
qed

text \<open>C3 as stated fails for a budget below \<open>- 1\<close>: with the budget \<open>- 2\<close> and a predicate
  that is never true, \<open>wait_until\<close> returns \<open>False\<close> after one evaluation.\<close>

theorem wait_until_negative_budget_counterexample:
  "wait_until (probe ''condition_func'' always_false)
      (probed_kwargs noop_hook noop_hook noop_hook noop_hook (Some (- 2)) None (Some 0)) ((), [])
   = Some (Inr False, ((), [Called ''before_loop'', Called ''in_loop_before'',
                            Called ''condition_func'', Called ''after_loop'']))"
  by (simp add: wait_until_def seq_def bind_def returns_def probed_kwargs_def kwargs_get_def
      probe_def call_def always_false_def noop_hook_def wait_loop.simps)

section \<open>The claims on exceptional_handler\<close>

text \<open>
  C2. With the ceiling \<open>N\<close> and an operation that raises an exception of
  \<open>COMMON_EXCEPTIONS\<close> at every call, the wrapper raises
  \<open>Exception("Maximum retries reached!")\<close> after it has called the operation \<open>N\<close> times
  (no call at all for \<open>N \<le> 0\<close>), each call followed by a sleep of 5; the counter is
  compared with the ceiling on entry, so there is no further call.
\<close>

theorem exceptional_handler_exhausts:
  assumes "\<forall>n w. \<exists>e. fst (f n w) = Inl e \<and> catches COMMON_EXCEPTIONS e"
  shows "outcome (exceptional_handler (probe ''func'' f) None (Some N) (w, []))
           = Some (Inl (Exn Exception ''Maximum retries reached!''))
       \<and> calls_of ''func'' (exceptional_handler (probe ''func'' f) None (Some N) (w, []))
           = Some (nat N)
       \<and> trace_of (exceptional_handler (probe ''func'' f) None (Some N) (w, []))
           = Some (concat (replicate (nat N) [Called ''func'', Sleep 5]))"
proof -
  obtain w1 where "wrapper (probe ''func'' f) 0 N (w, []) =
      Some (Inl (Exn Exception ''Maximum retries reached!''),
            (w1, [] @ concat (replicate (nat (N - 0)) [Called ''func'', Sleep 5])))"
    using wrapper_exhausted[OF assms, of 0 N w "[]"] by blast
  then show ?thesis
    by (simp add: exceptional_handler_def kwargs_get_def outcome_def calls_of_def trace_of_def
        count_list_concat_replicate)
qed

theorem exceptional_handler_exhausts_witness:
  "outcome (exceptional_handler (probe ''func'' always_timeout) None (Some 2) ((), []))
     = Some (Inl (Exn Exception ''Maximum retries reached!''))
   \<and> calls_of ''func'' (exceptional_handler (probe ''func'' always_timeout) None (Some 2) ((), []))
     = Some 2
   \<and> trace_of (exceptional_handler (probe ''func'' always_timeout) None (Some 2) ((), []))
     = Some [Called ''func'', Sleep 5, Called ''func'', Sleep 5]"
proof -
  have h: "\<forall>n w. \<exists>e. fst (always_timeout n w) = Inl e \<and> catches COMMON_EXCEPTIONS e"
    by (simp add: always_timeout_def catches_common)
  from exceptional_handler_exhausts[OF h, of 2 "()"] show ?thesis
    by (simp add: numeral_2_eq_2)
qed

text \<open>
  C4. When the wrapped operation raises \<open>e\<close> inside the wrapper (the ceiling not yet
  reached): if \<open>e\<close> is an instance of one of the seven classes of \<open>COMMON_EXCEPTIONS\<close>, the
  wrapper sleeps 5 and calls itself with \<open>retry + 1\<close>; otherwise \<open>e\<close> propagates at once, with
  no sleep and no further call. The instances of the seven classes are the exceptions of
  selenium (all derive from \<open>WebDriverException\<close>, the fifth of them); the built-in
  exceptions are none of them.
\<close>

theorem exceptional_handler_retry_kinds:
  assumes "retry < max_retries"
    and "f (Suc (count_list tr (Called ''func''))) w = (Inl e, w1)"
  shows "(catches COMMON_EXCEPTIONS e \<longrightarrow>
            exceptional_handler (probe ''func'' f) (Some retry) (Some max_retries) (w, tr)
            = exceptional_handler (probe ''func'' f) (Some (retry + 1)) (Some max_retries)
                (w1, tr @ [Called ''func'', Sleep 5]))
       \<and> (\<not> catches COMMON_EXCEPTIONS e \<longrightarrow>
            exceptional_handler (probe ''func'' f) (Some retry) (Some max_retries) (w, tr)
            = Some (Inl e, (w1, tr @ [Called ''func''])))
       \<and> (exn_cls e \<in> set COMMON_EXCEPTIONS \<longrightarrow> catches COMMON_EXCEPTIONS e)
       \<and> (exn_cls e \<in> set [Exception, ValueError, FileNotFoundError, AttributeError, TypeError]
            \<longrightarrow> \<not> catches COMMON_EXCEPTIONS e)
       \<and> catches COMMON_EXCEPTIONS e = is_selenium (exn_cls e)"
proof -
  have p: "probe ''func'' f (w, tr) = Some (Inl e, (w1, tr @ [Called ''func'']))"
    using assms(2) by (simp add: probe_apply)
  have 1: "catches COMMON_EXCEPTIONS e \<longrightarrow>
            exceptional_handler (probe ''func'' f) (Some retry) (Some max_retries) (w, tr)
            = exceptional_handler (probe ''func'' f) (Some (retry + 1)) (Some max_retries)
                (w1, tr @ [Called ''func'', Sleep 5])"
    using wrapper_retries[where func = "probe ''func'' f", OF assms(1) p] by (simp add: exceptional_handler_def kwargs_get_def)
  have 2: "\<not> catches COMMON_EXCEPTIONS e \<longrightarrow>
            exceptional_handler (probe ''func'' f) (Some retry) (Some max_retries) (w, tr)
            = Some (Inl e, (w1, tr @ [Called ''func'']))"
    using wrapper_propagates[where func = "probe ''func'' f", OF assms(1) p] by (simp add: exceptional_handler_def kwargs_get_def)
  have 3: "exn_cls e \<in> set COMMON_EXCEPTIONS \<longrightarrow> catches COMMON_EXCEPTIONS e"
    unfolding catches_common by (auto simp: COMMON_EXCEPTIONS_def)
  have 4: "exn_cls e \<in> set [Exception, ValueError, FileNotFoundError, AttributeError, TypeError]
            \<longrightarrow> \<not> catches COMMON_EXCEPTIONS e"
    unfolding catches_common by auto
  from 1 2 3 4 catches_common show ?thesis by blast
qed

theorem exceptional_handler_retry_kinds_witness:
  "exceptional_handler (probe ''func'' always_timeout) (Some 0) (Some 2) ((), [])
     = exceptional_handler (probe ''func'' always_timeout) (Some 1) (Some 2)
         ((), [Called ''func'', Sleep 5])
   \<and> exceptional_handler (probe ''func'' always_value_error) (Some 0) (Some 2) ((), [])
     = Some (Inl (Exn ValueError ''bad value''), ((), [Called ''func'']))"
proof -
  have a: "always_timeout (Suc (count_list [] (Called ''func''))) ()
             = (Inl (Exn TimeoutException ''timed out''), ())"
    by (simp add: always_timeout_def)
  have b: "always_value_error (Suc (count_list [] (Called ''func''))) ()
             = (Inl (Exn ValueError ''bad value''), ())"
    by (simp add: always_value_error_def)
  have lt: "(0::int) < 2" by simp
  from exceptional_handler_retry_kinds[where f = always_timeout, OF lt a]
    exceptional_handler_retry_kinds[where f = always_value_error, OF lt b]
  show ?thesis by (simp add: catches_common)
qed

section \<open>The claims on the session and the workflows\<close>

subsection \<open>kill_browser\<close>

text \<open>In the environment where every call returns, \<open>InstagramBot.__init__\<close> on Linux
  builds \<open>started_bot\<close>.\<close>

lemma started_bot_built:
  "InstagramBot_init (quiet_env []) ''LINUX'' ''/tmp/ProfileTemp'' ''user'' ''secret'' False ((), [])
   = Some (Inr started_bot,
           ((), [SBEnter False ''/tmp/ProfileTemp'', MaximizeWindow, SetPageLoadTimeout 300]))"
  by (simp add: InstagramBot_init_def start_chrome_def BrowserHandler_init_def bind_def seq_def
      call_def returns_def quiet_env_def started_bot_def browser_handler.extend_def
      instagram_bot.fields_def)

text \<open>
  C9, as the code has it. On a handler that holds no session (\<open>driver\<close> is \<open>None\<close>),
  \<open>kill_browser\<close> is a no-op: it returns at once, with no call and no event. It never
  changes the handler, so on a handler whose \<open>driver\<close> is set every call of it, the first
  or a later one, starts with \<open>driver.quit()\<close>.
\<close>

theorem kill_browser_noop_without_session:
  "(driver self = None \<longrightarrow> kill_browser E self delete_profile st = Some (Inr (), st))
   \<and> (driver self \<noteq> None \<longrightarrow>
        (\<exists>r w1 tr1. kill_browser E self delete_profile (w, tr)
                       = Some (r, (w1, tr @ DriverQuit # tr1))))"
proof
  show "driver self = None \<longrightarrow> kill_browser E self delete_profile st = Some (Inr (), st)"
    by (simp add: kill_browser_def returns_def)
next
  show "driver self \<noteq> None \<longrightarrow>
        (\<exists>r w1 tr1. kill_browser E self delete_profile (w, tr)
                       = Some (r, (w1, tr @ DriverQuit # tr1)))"
    by (auto simp: kill_browser_def seq_def bind_def call_def attr_of_def py_sleep_def
          returns_def raise_def
        split: prod.splits sum.splits option.splits)
qed

theorem kill_browser_noop_without_session_witness:
  "kill_browser (quiet_env []) (BrowserHandler_init ''LINUX'' ''/tmp/ProfileTemp'') True ((), [])
     = Some (Inr (), ((), []))
   \<and> (\<exists>r w1 tr1. kill_browser (quiet_env []) started_bot True ((), [])
                    = Some (r, (w1, [] @ DriverQuit # tr1)))"
  using kill_browser_noop_without_session[of "BrowserHandler_init ''LINUX'' ''/tmp/ProfileTemp''"
      "quiet_env []" True "((), [])" "()" "[]"]
    kill_browser_noop_without_session[of started_bot "quiet_env []" True "((), [])" "()" "[]"]
  by (simp add: BrowserHandler_init_def started_bot_def)

text \<open>C9 as stated fails: after a teardown of a started session has completed, a second
  \<open>kill_browser\<close> quits the driver, leaves the context manager and deletes the profile
  once more.\<close>

theorem kill_browser_twice_counterexample:
  "seq (kill_browser (quiet_env []) started_bot True)
       (kill_browser (quiet_env []) started_bot True) ((), [])
   = Some (Inr (), ((), [DriverQuit, SBExit, Sleep 5, Popen ''rm -r /tmp/ProfileTemp'',
                         DriverQuit, SBExit, Sleep 5, Popen ''rm -r /tmp/ProfileTemp'']))"
  by (simp add: kill_browser_def seq_def bind_def call_def attr_of_def py_sleep_def
      returns_def quiet_env_def started_bot_def)

subsection \<open>login\<close>

lemma catches_Exception: "catches [Exception] e"
  by (simp add: catches_def issubclass_def)

text \<open>
  C6. When the landmark \<open>svg[aria-label=Home]\<close> is on the page after the navigation,
  \<open>login\<close> returns \<open>True\<close> and has issued three calls only: the navigation, the sleep and
  the look-up; no field is written and nothing is clicked. \<open>login\<close> leaves the bot as it
  is, so a second \<open>login\<close> on the session, the landmark being there again, does the same.
\<close>

theorem login_idempotent:
  assumes "driver self \<noteq> None"
    and "driver_get E ''https://www.instagram.com/'' w = (Inr (), w1)"
    and "driver_find_elements E ''svg[aria-label=Home]'' w1 = (Inr els, w2)"
    and "els \<noteq> []"
    and "driver_get E ''https://www.instagram.com/'' w2 = (Inr (), w3)"
    and "driver_find_elements E ''svg[aria-label=Home]'' w3 = (Inr els2, w4)"
    and "els2 \<noteq> []"
  shows "login E self (w, tr)
           = Some (Inr True, (w2, tr @ [DriverGet ''https://www.instagram.com/'', Sleep 3,
                                       FindElements ''svg[aria-label=Home]'']))
       \<and> seq (login E self) (login E self) (w, tr)
           = Some (Inr True, (w4, tr @ [DriverGet ''https://www.instagram.com/'', Sleep 3,
                                       FindElements ''svg[aria-label=Home]'',
                                       DriverGet ''https://www.instagram.com/'', Sleep 3,
                                       FindElements ''svg[aria-label=Home]'']))"
proof -
  have one: "login E self (u, t)
           = Some (Inr True, (u2, t @ [DriverGet ''https://www.instagram.com/'', Sleep 3,
                                       FindElements ''svg[aria-label=Home]'']))"
    if "driver_get E ''https://www.instagram.com/'' u = (Inr (), u1)"
      and "driver_find_elements E ''svg[aria-label=Home]'' u1 = (Inr xs, u2)"
      and "xs \<noteq> []" for u u1 u2 t xs
    using that assms(1)
    by (auto simp: login_def try_except_def seq_def bind_def call_def attr_of_def py_sleep_def
          returns_def find_elements_def)
  from one[OF assms(2) assms(3) assms(4), of tr]
    one[OF assms(5) assms(6) assms(7),
      of "tr @ [DriverGet ''https://www.instagram.com/'', Sleep 3, FindElements ''svg[aria-label=Home]'']"]
  show ?thesis by (simp add: seq_def bind_def)
qed

theorem login_idempotent_witness:
  "login (quiet_env [7]) started_bot ((), [])
     = Some (Inr True, ((), [] @ [DriverGet ''https://www.instagram.com/'', Sleep 3,
                                  FindElements ''svg[aria-label=Home]'']))
   \<and> seq (login (quiet_env [7]) started_bot) (login (quiet_env [7]) started_bot) ((), [])
     = Some (Inr True, ((), [] @ [DriverGet ''https://www.instagram.com/'', Sleep 3,
                                  FindElements ''svg[aria-label=Home]'',
                                  DriverGet ''https://www.instagram.com/'', Sleep 3,
                                  FindElements ''svg[aria-label=Home]'']))"
proof -
  have d: "driver started_bot \<noteq> None" by (simp add: started_bot_def)
  have g: "driver_get (quiet_env [7]) ''https://www.instagram.com/'' () = (Inr (), ())"
    by (simp add: quiet_env_def)
  have f: "driver_find_elements (quiet_env [7]) ''svg[aria-label=Home]'' () = (Inr [7], ())"
    by (simp add: quiet_env_def)
  have n: "[7::nat] \<noteq> []" by simp
  from login_idempotent[OF d g f n g f n, of "[]"] show ?thesis .
qed

subsection \<open>post_image: the validation\<close>

text \<open>
  C7. When no file is at the path, or the lower-cased extension of the path is not among
  \<open>allowed_extensions\<close>, \<open>post_image\<close> raises (\<open>FileNotFoundError\<close> or \<open>ValueError\<close>,
  re-raised as \<open>Exception("Post failed: ...")\<close>) and the world and the trace are as
  before: no call was issued.
\<close>

theorem post_image_rejects_before_driver:
  assumes "\<not> path_exists E image_path w
           \<or> str_lower E (snd (path_splitext E image_path)) \<notin> set allowed_extensions"
  shows "post_image E self image_path caption (w, tr)
         = Some (Inl (Exn Exception
                   (''Post failed: '' @
                    (if \<not> path_exists E image_path w
                     then ''Image file not found: '' @ image_path
                     else ''Unsupported file type: ''
                          @ str_lower E (snd (path_splitext E image_path))))),
                 (w, tr))"
  using assms
  by (auto simp: post_image_def post_image_validate_def try_except_def seq_def bind_def
        raise_def catches_Exception str_exn_def Let_def)

theorem post_image_rejects_before_driver_witness:
  "post_image (quiet_env []) started_bot ''/tmp/notes.TXT'' ''hello'' ((), [])
     = Some (Inl (Exn Exception ''Post failed: Unsupported file type: .txt''), ((), []))
   \<and> post_image no_files_env started_bot ''/tmp/photo.jpg'' ''hello'' ((), [])
     = Some (Inl (Exn Exception ''Post failed: Image file not found: /tmp/photo.jpg''), ((), []))"
proof -
  have e: "str_lower (quiet_env []) (snd (path_splitext (quiet_env []) ''/tmp/notes.TXT'')) = ''.txt''"
    by code_simp
  have x: "path_exists (quiet_env []) ''/tmp/notes.TXT'' ()"
    by (simp add: quiet_env_def)
  have a: "\<not> path_exists (quiet_env []) ''/tmp/notes.TXT'' ()
           \<or> str_lower (quiet_env []) (snd (path_splitext (quiet_env []) ''/tmp/notes.TXT'')) \<notin> set allowed_extensions"
    unfolding e by (simp add: allowed_extensions_def)
  have b: "\<not> path_exists no_files_env ''/tmp/photo.jpg'' ()
           \<or> str_lower no_files_env (snd (path_splitext no_files_env ''/tmp/photo.jpg'')) \<notin> set allowed_extensions"
    by (simp add: no_files_env_def)
  have nb: "\<not> path_exists no_files_env ''/tmp/photo.jpg'' ()"
    by (simp add: no_files_env_def)
  from post_image_rejects_before_driver[OF a, of started_bot "''hello''" "[]"]
    post_image_rejects_before_driver[OF b, of started_bot "''hello''" "[]"]
  show ?thesis using e x nb by simp
qed

subsection \<open>post_image: the wait for the crop dialog\<close>

lemma loop_tail_plain:
  "loop_tail (no_kwargs\<lparr>message := Some msg, max_tries := Some m\<rparr>) dots (w, tr) =
     Some (Inr (), (w, tr @ [Stdout (msg @ replicate dots CHR ''.'' @ [CHR 0x0D]),
        Sleep (1/2), Stdout (replicate 100 CHR '' '' @ [CHR 0x0D])]))"
  by (simp add: loop_tail_def seq_def bind_def py_print_cr_def no_kwargs_def kwargs_get_def
      py_sleep_def returns_def)

lemma present_empty:
  assumes "driver self \<noteq> None" and "\<forall>w. fst (driver_find_elements E css_selector w) = Inr []"
  shows "present E self css_selector (w, tr)
         = Some (Inr False, (snd (driver_find_elements E css_selector w),
                             tr @ [FindElements css_selector]))"
proof -
  obtain w1 where fe: "driver_find_elements E css_selector w = (Inr [], w1)"
    using assms(2) by (metis prod.collapse)
  show ?thesis
    using assms(1)
    by (auto simp: present_def find_elements_def attr_of_def bind_def call_def returns_def fe)
qed

text \<open>The loop of a wait whose look-up stays empty, from attempt \<open>a\<close> on.\<close>

lemma wait_loop_present_never:
  assumes d: "driver self \<noteq> None"
    and f: "\<forall>w. fst (driver_find_elements E css_selector w) = Inr []"
  shows "a \<le> n \<Longrightarrow>
     \<exists>w1. wait_loop (present E self css_selector)
             (no_kwargs\<lparr>message := Some msg, max_tries := Some (int n)\<rparr>) (int n) (int a)
             (a mod 3 + 1) (w, tr)
           = Some (Inr True,
                   (w1, tr @ concat (map (poll_round css_selector msg) [a..<n])
                           @ [FindElements css_selector]))"
proof (induction "n - a" arbitrary: a w tr)
  case 0
  then have an: "a = n" by simp
  let ?kw = "no_kwargs\<lparr>message := Some msg, max_tries := Some (int n)\<rparr>"
  have b: "kwargs_get (in_loop_before ?kw) (returns ()) (w, tr) = Some (Inr (), (w, tr))"
    by (simp add: no_kwargs_def kwargs_get_def returns_def)
  have m: "int n \<noteq> - 1" by simp
  have ge: "int a \<ge> int n" using an by simp
  from wait_loop_budget[where condition_func = "present E self css_selector",
      OF b present_empty[OF d f] m ge]
  show ?case using an by simp
next
  case (Suc k)
  then have lt: "a < n" by simp
  let ?kw = "no_kwargs\<lparr>message := Some msg, max_tries := Some (int n)\<rparr>"
  let ?w1 = "snd (driver_find_elements E css_selector w)"
  have b: "kwargs_get (in_loop_before ?kw) (returns ()) (w, tr) = Some (Inr (), (w, tr))"
    by (simp add: no_kwargs_def kwargs_get_def returns_def)
  have bud: "int n = - 1 \<or> int a < int n" using lt by simp
  have "a mod 3 < 3" by simp
  then have dots: "(if a mod 3 + 1 > 2 then 1 else a mod 3 + 1 + 1) = Suc a mod 3 + 1"
    by (auto simp: mod_Suc)
  have step: "wait_loop (present E self css_selector) ?kw (int n) (int a) (a mod 3 + 1) (w, tr)
      = wait_loop (present E self css_selector) ?kw (int n) (int a + 1) (Suc a mod 3 + 1)
          (?w1, (tr @ [FindElements css_selector]) @
                [Stdout (msg @ replicate (a mod 3 + 1) CHR ''.'' @ [CHR 0x0D]),
                 Sleep (1/2), Stdout (replicate 100 CHR '' '' @ [CHR 0x0D])])"
    by (rule wait_loop_again[where condition_func = "present E self css_selector"
            and dots = "a mod 3 + 1",
          OF b present_empty[OF d f] bud loop_tail_plain, unfolded dots])
  have k: "k = n - Suc a" using Suc(2) by simp
  have le: "Suc a \<le> n" using lt by simp
  obtain w2 where ih: "wait_loop (present E self css_selector) ?kw (int n) (int (Suc a))
        (Suc a mod 3 + 1) (?w1, tr @ poll_round css_selector msg a)
      = Some (Inr True, (w2, (tr @ poll_round css_selector msg a)
                @ concat (map (poll_round css_selector msg) [Suc a..<n])
                @ [FindElements css_selector]))"
    using Suc(1)[OF k le, of ?w1 "tr @ poll_round css_selector msg a"] by blast
  have ia: "int (Suc a) = int a + 1" by simp
  have pr: "tr @ poll_round css_selector msg a
      = (tr @ [FindElements css_selector]) @
                [Stdout (msg @ replicate (a mod 3 + 1) CHR ''.'' @ [CHR 0x0D]),
                 Sleep (1/2), Stdout (replicate 100 CHR '' '' @ [CHR 0x0D])]"
    by (simp add: poll_round_def)
  have up: "[a..<n] = a # [Suc a..<n]" using lt by (simp add: upt_conv_Cons)
  have "wait_loop (present E self css_selector) ?kw (int n) (int a) (a mod 3 + 1) (w, tr)
      = Some (Inr True, (w2, (tr @ poll_round css_selector msg a)
                @ concat (map (poll_round css_selector msg) [Suc a..<n])
                @ [FindElements css_selector]))"
    using ih unfolding ia pr step[symmetric] .
  then show ?case unfolding up by auto
qed

lemma wait_or_raise_times_out:
  assumes d: "driver self \<noteq> None"
    and f: "\<forall>w. fst (driver_find_elements E css_selector w) = Inr []"
  shows "\<exists>w1. wait_or_raise (present E self css_selector) msg (int n) failure (w, tr)
           = Some (Inl (Exn TimeoutException failure),
                   (w1, tr @ poll_trace css_selector msg n))"
proof -
  obtain w1 where "wait_loop (present E self css_selector)
             (no_kwargs\<lparr>message := Some msg, max_tries := Some (int n)\<rparr>) (int n) (int 0)
             (0 mod 3 + 1) (w, tr)
           = Some (Inr True,
                   (w1, tr @ concat (map (poll_round css_selector msg) [0..<n])
                           @ [FindElements css_selector]))"
    using wait_loop_present_never[OF d f, of 0 n msg w tr] by blast
  then have "wait_or_raise (present E self css_selector) msg (int n) failure (w, tr)
           = Some (Inl (Exn TimeoutException failure),
                   (w1, tr @ poll_trace css_selector msg n))"
    by (simp add: wait_or_raise_def wait_until_def seq_def bind_def returns_def raise_def no_kwargs_def
        kwargs_get_def poll_trace_def)
  then show ?thesis by blast
qed

text \<open>
  C8. The file being valid and the upload steps having returned, if the look-up of the
  crop dialog stays empty, \<open>post_image\<close> raises \<open>Exception\<close> with the message of the
  wait for the crop dialog. After the events of the upload the trace holds the 21
  look-ups of the crop dialog with their 20 progress lines and sleeps, and nothing else:
  no step of the edit dialog, of the caption, of the share button or of the confirmation
  was started.
\<close>

theorem post_image_crop_wait_fails:
  assumes "path_exists E image_path w"
    and "str_lower E (snd (path_splitext E image_path)) \<in> set allowed_extensions"
    and "post_image_upload E self image_path (w, tr) = Some (Inr (), (w1, tr1))"
    and "driver self \<noteq> None"
    and "\<forall>w. fst (driver_find_elements E ''div[aria-label='Crop']'' w) = Inr []"
  shows "\<exists>w2. post_image E self image_path caption (w, tr)
           = Some (Inl (Exn Exception
                     (''Post failed: Message: Crop dialog not found'' @ [CHR 0x0A])),
                   (w2, tr1 @ poll_trace ''div[aria-label='Crop']'' ''Waiting for crop dialog'' 20))"
proof -
  obtain w2 where g: "wait_or_raise (present E self ''div[aria-label='Crop']'') ''Waiting for crop dialog''
        (int 20) ''Crop dialog not found'' (w1, tr1)
      = Some (Inl (Exn TimeoutException ''Crop dialog not found''),
              (w2, tr1 @ poll_trace ''div[aria-label='Crop']'' ''Waiting for crop dialog'' 20))"
    using wait_or_raise_times_out[OF assms(4) assms(5)] by blast
  have v: "post_image_validate E image_path (w, tr) = Some (Inr (), (w, tr))"
    using assms(1) assms(2) by (simp add: post_image_validate_def returns_def Let_def)
  have "post_image E self image_path caption (w, tr)
           = Some (Inl (Exn Exception
                     (''Post failed: Message: Crop dialog not found'' @ [CHR 0x0A])),
                   (w2, tr1 @ poll_trace ''div[aria-label='Crop']'' ''Waiting for crop dialog'' 20))"
    using v assms(3) g
    by (simp add: post_image_def post_image_crop_def try_except_def seq_def bind_def
        raise_def catches_Exception str_exn_def)
  then show ?thesis by blast
qed

lemma upload_in_quiet_env:
  "post_image_upload (quiet_env []) started_bot ''/tmp/photo.jpg'' ((), [])
   = Some (Inr (), ((),
       [WaitUntil element_to_be_clickable ''svg[aria-label='New post']'',
        ExecuteScript scroll_script 0, Sleep 1, ElementClick 0,
        WaitUntil element_to_be_clickable ''div[aria-hidden='false'] a:first-child'',
        ExecuteScript scroll_script 0, Sleep 1, ElementClick 0,
        WaitUntil presence_of_element_located ''input[type=file]'',
        SendKeys 0 ''/tmp/photo.jpg'']))"
  by (simp add: post_image_upload_def click_element_def write_input_def exceptional_handler_def
      kwargs_get_def wrapper.simps click_element_body_def write_body_def get_element_def
      attr_of_def seq_def bind_def call_def returns_def py_sleep_def quiet_env_def
      started_bot_def)

theorem post_image_crop_wait_fails_witness:
  "\<exists>w2. post_image (quiet_env []) started_bot ''/tmp/photo.jpg'' ''hello'' ((), [])
     = Some (Inl (Exn Exception (''Post failed: Message: Crop dialog not found'' @ [CHR 0x0A])),
             (w2,
              [WaitUntil element_to_be_clickable ''svg[aria-label='New post']'',
               ExecuteScript scroll_script 0, Sleep 1, ElementClick 0,
               WaitUntil element_to_be_clickable ''div[aria-hidden='false'] a:first-child'',
               ExecuteScript scroll_script 0, Sleep 1, ElementClick 0,
               WaitUntil presence_of_element_located ''input[type=file]'',
               SendKeys 0 ''/tmp/photo.jpg'']
              @ poll_trace ''div[aria-label='Crop']'' ''Waiting for crop dialog'' 20))"
proof -
  have x: "path_exists (quiet_env []) ''/tmp/photo.jpg'' ()"
    by (simp add: quiet_env_def)
  have e: "str_lower (quiet_env []) (snd (path_splitext (quiet_env []) ''/tmp/photo.jpg'')) = ''.jpg''"
    by code_simp
  have a: "str_lower (quiet_env []) (snd (path_splitext (quiet_env []) ''/tmp/photo.jpg'')) \<in> set allowed_extensions"
    unfolding e by (simp add: allowed_extensions_def)
  have d: "driver started_bot \<noteq> None" by (simp add: started_bot_def)
  have f: "\<forall>w. fst (driver_find_elements (quiet_env []) ''div[aria-label='Crop']'' w) = Inr []"
    by (simp add: quiet_env_def)
  from post_image_crop_wait_fails[OF x a upload_in_quiet_env d f, of "''hello''"]
  show ?thesis .
qed

end
